theory Spec2Isabelle
  imports Complex_Main "HOL-Library.Sublist" "HOL-Library.Multiset"
begin

section \<open>Highlight selection and keyframe extraction (AI-CUT)\<close>

text \<open>
  A shallow embedding of \<^verbatim>\<open>core/highlight_selector.py\<close>,
  \<^verbatim>\<open>core/multimodal_fusion.py\<close> and \<^verbatim>\<open>core/keyframe_extractor.py\<close>.

  Conventions.
  \<^item> A Python dict with string keys is a record. A key that the code reads with
    \<^verbatim>\<open>d[k]\<close> and that a caller may leave out is an \<open>option\<close> field: \<open>None\<close> is the absent
    key, and reading it raises \<open>KeyError\<close>.
  \<^item> A Python float is an IEEE 754 double, modelled by the real number it denotes. Every
    arithmetic operation of the code on floats is the exact operation followed by the
    rounding \<open>fl\<close> to the nearest double, and a decimal literal such as \<^verbatim>\<open>0.4\<close> is
    \<open>fl 0.4\<close>. Numeric fields of the input dicts hold floats. Infinities, NaN and the sign
    of zero are outside the model: \<open>fl\<close> has no largest double.
  \<^item> A Python \<^verbatim>\<open>str\<close> is a list of characters, \<^verbatim>\<open>len\<close> is \<open>length\<close>.
  \<^item> Counts produced by \<^verbatim>\<open>len\<close> and the constructor's
    \<^verbatim>\<open>max_frames_per_scene\<close> are natural numbers.
  \<^item> Exceptions are values of type \<open>py_error\<close>, returned as \<open>Inl\<close>.
  \<^item> Logging is not modelled, except where building the log message can raise.
\<close>

datatype py_error = KeyError | ZeroDivisionError

subsection \<open>Python built-ins used by the code\<close>

text \<open>\<^verbatim>\<open>sep.join(parts)\<close>.\<close>

fun join :: "string \<Rightarrow> string list \<Rightarrow> string" where
  "join sep [] = []"
| "join sep [x] = x"
| "join sep (x # y # ys) = x @ sep @ join sep (y # ys)"

text \<open>Rounding to the nearest integer, a tie going to the even neighbour.\<close>

definition round_half_even :: "real \<Rightarrow> int" where
  "round_half_even x =
     (let f = \<lfloor>x\<rfloor>; r = x - of_int f
      in if r < 1 / 2 then f else if 1 / 2 < r then f + 1 else if even f then f else f + 1)"

text \<open>
  Double precision. A double is an integer multiple \<open>m * 2\<^sup>e\<close> with \<open>\<bar>m\<bar> \<le> 2\<^sup>5\<^sup>3\<close> and
  \<open>e \<ge> -1074\<close>. \<open>fl_exponent x\<close> is the exponent of the doubles around \<open>x\<close>: 52 below the
  position of the leading bit of \<open>x\<close>, and \<open>-1074\<close> in the subnormal range. \<open>fl x\<close> is the
  multiple of \<open>2\<close> to that exponent nearest to \<open>x\<close>, a tie going to the even multiple
  (round to nearest, ties to even).
\<close>

definition fl_exponent :: "real \<Rightarrow> int" where
  "fl_exponent x = max (\<lfloor>log 2 \<bar>x\<bar>\<rfloor> - 52) (- 1074)"

definition fl :: "real \<Rightarrow> real" where
  "fl x =
     (if x = 0 then 0
      else of_int (round_half_even (x / 2 powi fl_exponent x)) * 2 powi fl_exponent x)"

text \<open>The reals that are doubles.\<close>

definition is_double :: "real \<Rightarrow> bool" where
  "is_double x = (fl x = x)"

text \<open>The operators \<^verbatim>\<open>+\<close>, \<^verbatim>\<open>-\<close>, \<^verbatim>\<open>*\<close> and \<^verbatim>\<open>/\<close> on floats.\<close>

definition fadd :: "real \<Rightarrow> real \<Rightarrow> real" where
  "fadd x y = fl (x + y)"

definition fsub :: "real \<Rightarrow> real \<Rightarrow> real" where
  "fsub x y = fl (x - y)"

definition fmul :: "real \<Rightarrow> real \<Rightarrow> real" where
  "fmul x y = fl (x * y)"

definition fdiv :: "real \<Rightarrow> real \<Rightarrow> real" where
  "fdiv x y = fl (x / y)"

text \<open>The conversion of an \<^verbatim>\<open>int\<close> operand (here always a length) to a float.\<close>

definition float_of_nat :: "nat \<Rightarrow> real" where
  "float_of_nat n = fl (real n)"

text \<open>
  \<^verbatim>\<open>round(x, ndigits)\<close> on a float: the exact value of \<open>x\<close> is rounded to the nearest
  multiple of \<open>10\<^sup>-\<^sup>n\<close>, a tie going to the even neighbour, and the result is the double
  nearest to that decimal.
\<close>

definition py_round :: "real \<Rightarrow> nat \<Rightarrow> real" where
  "py_round x ndigits = fl (of_int (round_half_even (x * 10 ^ ndigits)) / 10 ^ ndigits)"

text \<open>\<^verbatim>\<open>int(x)\<close> on a float: truncation towards zero.\<close>

definition py_int :: "real \<Rightarrow> int" where
  "py_int x = (if 0 \<le> x then \<lfloor>x\<rfloor> else \<lceil>x\<rceil>)"

subsection \<open>Scenes and subtitles\<close>

text \<open>
  The scene dict produced by the scene detector. \<^verbatim>\<open>selected_id\<close> is the key that
  \<^verbatim>\<open>select_highlights\<close> adds and \<^verbatim>\<open>_extract_from_scene\<close> reads with \<^verbatim>\<open>get\<close>.
\<close>

record scene =
  scene_id :: "int option"
  index :: "int option"
  start_time :: "real option"
  end_time :: "real option"
  duration :: "real option"
  start_frame :: "int option"
  end_frame :: "int option"
  selected_id :: "nat option"

text \<open>A subtitle dict \<^verbatim>\<open>{'start', 'end', 'text'}\<close>; its three keys are taken as present.\<close>

record subtitle =
  sub_start :: real
  sub_end :: real
  sub_text :: string

text \<open>The copy of a scene that \<^verbatim>\<open>_add_dialogue_to_scene\<close> returns.\<close>

record dialogue_scene = scene +
  dialogue :: string
  subtitle_count :: nat

text \<open>The same dict once \<^verbatim>\<open>select_highlights\<close> has stored \<^verbatim>\<open>highlight_score\<close> in it.\<close>

record scored_scene = dialogue_scene +
  highlight_score :: real

subsection \<open>HighlightSelector\<close>

text \<open>The filter condition of the list comprehension in \<^verbatim>\<open>_add_dialogue_to_scene\<close>.\<close>

definition subtitle_in_scene :: "real \<Rightarrow> real \<Rightarrow> subtitle \<Rightarrow> bool" where
  "subtitle_in_scene start endt sub =
     ((sub_start sub \<ge> start \<and> sub_start sub < endt) \<or>
      (sub_end sub > start \<and> sub_end sub \<le> endt) \<or>
      (sub_start sub \<le> start \<and> sub_end sub \<ge> endt))"

definition add_dialogue_to_scene :: "scene \<Rightarrow> subtitle list \<Rightarrow> py_error + dialogue_scene" where
  "add_dialogue_to_scene scene subtitles =
     (case start_time scene of
        None \<Rightarrow> Inl KeyError
      | Some start \<Rightarrow>
          (case end_time scene of
             None \<Rightarrow> Inl KeyError
           | Some endt \<Rightarrow>
               (let scene_subtitles = filter (subtitle_in_scene start endt) subtitles;
                    joined = join '' '' (map sub_text scene_subtitles)
                in Inr (scene.extend scene
                     (dialogue_scene.fields joined (length scene_subtitles))))))"

text \<open>
  The three blocks of \<^verbatim>\<open>_calculate_highlight_score\<close>, named after the local variable each
  one computes, and the function itself. \<^verbatim>\<open>subtitle_count * 20\<close> is a product of integers;
  \<open>subtitle_score\<close> is an integer up to 100, which is the same number as a float.
\<close>

definition dialogue_score :: "nat \<Rightarrow> real \<Rightarrow> real" where
  "dialogue_score dialogue_len dur =
     (if dialogue_len > 0
      then (let dialogue_density = (if dur > 0 then fdiv (float_of_nat dialogue_len) dur else 0)
            in min (fmul (fdiv dialogue_density 8) 100) 100)
      else 0)"

definition subtitle_score :: "nat \<Rightarrow> real" where
  "subtitle_score n =
     (if n > 0 then min (real n * 20) 100 else 0)"

definition duration_score :: "real \<Rightarrow> real" where
  "duration_score dur =
     (if 5 \<le> dur \<and> dur \<le> 15 then 100
      else if dur < 5 then fmul (fdiv dur 5) 100
      else max 0 (fsub 100 (fmul (fsub dur 15) 3)))"

definition calculate_highlight_score :: "'a dialogue_scene_scheme \<Rightarrow> py_error + real" where
  "calculate_highlight_score scene =
     (case duration scene of
        None \<Rightarrow> Inl KeyError
      | Some dur \<Rightarrow>
          (let score = 0;
               score = fadd score (fmul (dialogue_score (length (dialogue scene)) dur) (fl 0.4));
               score = fadd score (fmul (subtitle_score (subtitle_count scene)) (fl 0.3));
               score = fadd score (fmul (duration_score dur) (fl 0.3))
           in Inr (py_round score 2)))"

text \<open>
  Step 1 of \<^verbatim>\<open>select_highlights\<close>: the loop whose body is wrapped in
  \<^verbatim>\<open>try ... except Exception: continue\<close>.
\<close>

fun enrich_scenes :: "scene list \<Rightarrow> subtitle list \<Rightarrow> scored_scene list" where
  "enrich_scenes [] subtitles = []"
| "enrich_scenes (scene # scenes) subtitles =
     (case add_dialogue_to_scene scene subtitles of
        Inl e \<Rightarrow> enrich_scenes scenes subtitles
      | Inr scene_with_dialogue \<Rightarrow>
          (case calculate_highlight_score scene_with_dialogue of
             Inl e \<Rightarrow> enrich_scenes scenes subtitles
           | Inr score \<Rightarrow>
               dialogue_scene.extend scene_with_dialogue (scored_scene.fields score)
                 # enrich_scenes scenes subtitles))"

text \<open>
  Step 3, the greedy loop. The message passed to \<^verbatim>\<open>logger.debug\<close> is an f-string, built
  before the call whatever the log level: it reads \<^verbatim>\<open>scene['id']\<close>,
  \<^verbatim>\<open>scene['start_time']\<close> and \<^verbatim>\<open>scene['end_time']\<close>.
\<close>

definition debug_message_keys :: "'a scene_scheme \<Rightarrow> bool" where
  "debug_message_keys scene =
     (scene_id scene \<noteq> None \<and> start_time scene \<noteq> None \<and> end_time scene \<noteq> None)"

fun greedy_select ::
  "scored_scene list \<Rightarrow> real \<Rightarrow> scored_scene list \<Rightarrow> real \<Rightarrow>
   py_error + (scored_scene list \<times> real)" where
  "greedy_select [] target_duration selected_scenes total_duration =
     Inr (selected_scenes, total_duration)"
| "greedy_select (scene # rest) target_duration selected_scenes total_duration =
     (case duration scene of
        None \<Rightarrow> Inl KeyError
      | Some dur \<Rightarrow>
          (if fadd total_duration dur \<le> target_duration \<and> \<not> debug_message_keys scene
           then Inl KeyError
           else
             (let (selected_scenes, total_duration) =
                    (if fadd total_duration dur \<le> target_duration
                     then (selected_scenes @ [scene], fadd total_duration dur)
                     else (selected_scenes, total_duration))
              in if total_duration \<ge> fmul target_duration (fl 0.95)
                 then Inr (selected_scenes, total_duration)
                 else greedy_select rest target_duration selected_scenes total_duration)))"

text \<open>Step 4: \<^verbatim>\<open>selected_scenes.sort(key=lambda x: x['start_time'])\<close>.\<close>

definition sort_by_start_time :: "scored_scene list \<Rightarrow> py_error + scored_scene list" where
  "sort_by_start_time scenes =
     (if list_all (\<lambda>x. start_time x \<noteq> None) scenes
      then Inr (sort_key (\<lambda>x. the (start_time x)) scenes)
      else Inl KeyError)"

text \<open>Step 5: \<^verbatim>\<open>for i, scene in enumerate(selected_scenes, start=1)\<close>.\<close>

fun assign_selected_ids :: "nat \<Rightarrow> scored_scene list \<Rightarrow> scored_scene list" where
  "assign_selected_ids i [] = []"
| "assign_selected_ids i (scene # scenes) =
     scene\<lparr>selected_id := Some i\<rparr> # assign_selected_ids (Suc i) scenes"

text \<open>
  \<^verbatim>\<open>select_highlights\<close>. Step 2 is the stable sort
  \<^verbatim>\<open>sort(key=lambda x: x['highlight_score'], reverse=True)\<close>: descending, equal scores in
  their original order.
\<close>

definition select_highlights ::
  "scene list \<Rightarrow> subtitle list \<Rightarrow> real \<Rightarrow> py_error + scored_scene list" where
  "select_highlights scenes subtitles target_duration =
     (if scenes = [] then Inr []
      else
        (let enriched_scenes = enrich_scenes scenes subtitles
         in if enriched_scenes = [] then Inr []
            else
              (let enriched_scenes = sort_key (\<lambda>x. - highlight_score x) enriched_scenes
               in (case greedy_select enriched_scenes target_duration [] 0 of
                     Inl e \<Rightarrow> Inl e
                   | Inr (selected_scenes, total_duration) \<Rightarrow>
                       (case sort_by_start_time selected_scenes of
                          Inl e \<Rightarrow> Inl e
                        | Inr selected_scenes \<Rightarrow>
                            Inr (assign_selected_ids 1 selected_scenes))))))"

subsection \<open>MultimodalFusion\<close>

text \<open>
  The items of \<^verbatim>\<open>vision_results\<close>, \<^verbatim>\<open>ocr_results\<close> and \<^verbatim>\<open>face_results\<close>. Keys read
  with \<^verbatim>\<open>get\<close> are optional. An OCR item's \<^verbatim>\<open>texts\<close> holds the \<^verbatim>\<open>text\<close> of each
  entry; a face is opaque.
\<close>

record vision_item =
  vi_timestamp :: real
  vi_clip_labels :: "string list option"
  vi_blip2_caption :: "string option"
  vi_motion_score :: "real option"

record ocr_item =
  oi_timestamp :: real
  oi_texts :: "string list option"

record 'face face_item =
  fi_timestamp :: real
  fi_faces :: "'face list option"

text \<open>The dict that \<^verbatim>\<open>_merge_vision_data\<close> returns; \<open>None\<close> is the empty dict.\<close>

record visual_data =
  clip_labels :: "string list"
  blip2_caption :: string
  motion_score :: real

text \<open>
  The fused scene: the scene with the keys \<^verbatim>\<open>visual\<close>, \<^verbatim>\<open>ocr\<close> (its one entry
  \<^verbatim>\<open>texts\<close>), \<^verbatim>\<open>faces\<close> and \<^verbatim>\<open>dialogue\<close>, and then with \<^verbatim>\<open>highlight_score\<close>.
\<close>

record 'face fused_scene = scene +
  visual :: "visual_data option"
  ocr_texts :: "string list"
  faces :: "'face list"
  fused_dialogue :: string

record 'face scored_fused_scene = "'face fused_scene" +
  fused_highlight_score :: real

text \<open>\<^verbatim>\<open>_get_data_in_range\<close>; the first argument reads \<^verbatim>\<open>item['timestamp']\<close>.\<close>

definition get_data_in_range :: "('a \<Rightarrow> real) \<Rightarrow> 'a list \<Rightarrow> real \<Rightarrow> real \<Rightarrow> 'a list" where
  "get_data_in_range timestamp data_list start endt =
     filter (\<lambda>item. start \<le> timestamp item \<and> timestamp item \<le> endt) data_list"

text \<open>\<^verbatim>\<open>_get_dialogue_in_range\<close>.\<close>

fun dialogues_in_range :: "subtitle list \<Rightarrow> real \<Rightarrow> real \<Rightarrow> string list" where
  "dialogues_in_range [] start endt = []"
| "dialogues_in_range (sub # subtitles) start endt =
     (if sub_start sub \<ge> start \<and> sub_end sub \<le> endt
      then sub_text sub # dialogues_in_range subtitles start endt
      else dialogues_in_range subtitles start endt)"

definition get_dialogue_in_range :: "subtitle list \<Rightarrow> real \<Rightarrow> real \<Rightarrow> string" where
  "get_dialogue_in_range subtitles start endt =
     join '' '' (dialogues_in_range subtitles start endt)"

definition merge_vision_data :: "vision_item list \<Rightarrow> visual_data option" where
  "merge_vision_data vision_data =
     (if vision_data = [] then None
      else
        (let mid_frame = vision_data ! (length vision_data div 2)
         in Some \<lparr>clip_labels = (case vi_clip_labels mid_frame of None \<Rightarrow> [] | Some l \<Rightarrow> l),
                  blip2_caption = (case vi_blip2_caption mid_frame of None \<Rightarrow> [] | Some c \<Rightarrow> c),
                  motion_score = (case vi_motion_score mid_frame of None \<Rightarrow> 0 | Some m \<Rightarrow> m)\<rparr>))"

text \<open>
  \<^verbatim>\<open>_merge_ocr_data\<close>. \<^verbatim>\<open>list(set(all_texts))\<close> keeps one copy of each text, in an order
  Python does not fix; \<open>remdups\<close> is one such order.
\<close>

definition merge_ocr_data :: "ocr_item list \<Rightarrow> string list" where
  "merge_ocr_data ocr_data =
     remdups (concat (map (\<lambda>item. case oi_texts item of None \<Rightarrow> [] | Some ts \<Rightarrow> ts) ocr_data))"

definition merge_face_data :: "'face face_item list \<Rightarrow> 'face list" where
  "merge_face_data face_data =
     concat (map (\<lambda>item. case fi_faces item of None \<Rightarrow> [] | Some fs \<Rightarrow> fs) face_data)"

text \<open>
  \<^verbatim>\<open>MultimodalFusion._calculate_highlight_score\<close>, with its duration block. The division
  by \<^verbatim>\<open>scene['duration']\<close> is unguarded. The names bound by \<open>let\<close> are the local
  variables of the method; its \<open>dialogue_score\<close> is not the function of that name above.
  \<^verbatim>\<open>face_count * 30\<close> and \<^verbatim>\<open>ocr_count * 20\<close> are products of integers.
\<close>

definition mf_duration_score :: "real \<Rightarrow> real" where
  "mf_duration_score dur =
     (if 5 \<le> dur \<and> dur \<le> 15 then 100
      else if dur < 5 then fmul (fdiv dur 5) 100
      else max 0 (fsub 100 (fmul (fsub dur 15) 5)))"

definition mf_calculate_highlight_score :: "('face, 'a) fused_scene_scheme \<Rightarrow> py_error + real" where
  "mf_calculate_highlight_score scene =
     (case duration scene of
        None \<Rightarrow> Inl KeyError
      | Some dur \<Rightarrow>
          (if dur = 0 then Inl ZeroDivisionError
           else
             (let score = 0;
                  dialogue_len = length (fused_dialogue scene);
                  dialogue_score =
                    min (fmul (fdiv (fdiv (float_of_nat dialogue_len) dur) 10) 100) 100;
                  score = fadd score (fmul dialogue_score (fl 0.3));
                  motion =
                    fmul (case visual scene of None \<Rightarrow> 0 | Some v \<Rightarrow> motion_score v) 100;
                  score = fadd score (fmul motion (fl 0.25));
                  face_count = length (faces scene);
                  face_score = min (real face_count * 30) 100;
                  score = fadd score (fmul face_score (fl 0.2));
                  ocr_count = length (ocr_texts scene);
                  special_score = min (real ocr_count * 20) 100;
                  score = fadd score (fmul special_score (fl 0.15));
                  score = fadd score (fmul (mf_duration_score dur) (fl 0.1))
              in Inr score)))"

text \<open>\<^verbatim>\<open>fuse_multimodal_data\<close>: nothing is caught here, the first exception ends the call.\<close>

fun fuse_multimodal_data ::
  "scene list \<Rightarrow> vision_item list \<Rightarrow> ocr_item list \<Rightarrow> 'face face_item list \<Rightarrow> subtitle list \<Rightarrow>
   py_error + 'face scored_fused_scene list" where
  "fuse_multimodal_data [] vision_results ocr_results face_results subtitles = Inr []"
| "fuse_multimodal_data (scene # scenes) vision_results ocr_results face_results subtitles =
     (case start_time scene of
        None \<Rightarrow> Inl KeyError
      | Some start \<Rightarrow>
          (case end_time scene of
             None \<Rightarrow> Inl KeyError
           | Some endt \<Rightarrow>
               (let fused =
                      scene.extend scene
                        (fused_scene.fields
                           (merge_vision_data (get_data_in_range vi_timestamp vision_results start endt))
                           (merge_ocr_data (get_data_in_range oi_timestamp ocr_results start endt))
                           (merge_face_data (get_data_in_range fi_timestamp face_results start endt))
                           (get_dialogue_in_range subtitles start endt))
                in (case mf_calculate_highlight_score fused of
                      Inl e \<Rightarrow> Inl e
                    | Inr score \<Rightarrow>
                        (case fuse_multimodal_data scenes vision_results ocr_results
                                face_results subtitles of
                           Inl e \<Rightarrow> Inl e
                         | Inr fused_scenes \<Rightarrow>
                             Inr (fused_scene.extend fused (scored_fused_scene.fields score)
                                    # fused_scenes))))))"

subsection \<open>KeyframeExtractor\<close>

text \<open>
  The keyframe dict built by \<^verbatim>\<open>_extract_from_scene\<close>. The key \<^verbatim>\<open>image_path\<close> is set only
  when an output directory is given. \<^verbatim>\<open>remove_duplicates\<close> reads the hash with
  \<^verbatim>\<open>kf.get('image_hash')\<close>, so for it the key may be absent (\<open>None\<close>).
\<close>

record keyframe =
  kf_scene_id :: "int option"
  kf_scene_index :: "int option"
  keyframe_index :: nat
  time :: real
  frame_number :: int
  quality_score :: real
  image_path :: "string option"
  image_hash :: "string option"

text \<open>The candidate dict of \<^verbatim>\<open>_extract_from_scene\<close>; \<open>'f\<close> is the type of a decoded frame.\<close>

record 'f candidate =
  cand_time :: real
  cand_frame_number :: int
  cand_frame :: 'f
  cand_quality_score :: real

text \<open>
  What the extractor takes from OpenCV: reading the frame at a frame number
  (\<^verbatim>\<open>cap.set\<close> followed by \<^verbatim>\<open>cap.read\<close>, \<open>None\<close> when \<^verbatim>\<open>ret\<close> is false), and the two
  pixel computations \<^verbatim>\<open>_evaluate_frame_quality\<close> and \<^verbatim>\<open>_calculate_image_hash\<close>.
\<close>

record 'f video =
  read_frame :: "int \<Rightarrow> 'f option"
  evaluate_frame_quality :: "'f \<Rightarrow> real"
  calculate_image_hash :: "'f \<Rightarrow> string"

text \<open>\<^verbatim>\<open>self.mode_configs\<close>: interval and quality threshold of each mode.\<close>

definition mode_configs :: "string \<Rightarrow> (real \<times> real) option" where
  "mode_configs =
     [''low'' \<mapsto> (3.0, fl 0.3), ''medium'' \<mapsto> (2.0, 0.5), ''high'' \<mapsto> (1.0, fl 0.7)]"

definition mode_interval :: "string \<Rightarrow> real" where
  "mode_interval mode = (case mode_configs mode of Some cfg \<Rightarrow> fst cfg | None \<Rightarrow> 2.0)"

text \<open>The \<^verbatim>\<open>while\<close> loop that computes the sampling points.\<close>

function sample_loop ::
  "real option \<Rightarrow> real \<Rightarrow> nat \<Rightarrow> real \<Rightarrow> real \<Rightarrow> real list \<Rightarrow> py_error + real list" where
  "sample_loop start dur max_frames interval current_time sample_times =
     (if current_time < dur \<and> length sample_times < max_frames
      then (case start of
              None \<Rightarrow> Inl KeyError
            | Some st \<Rightarrow>
                sample_loop start dur max_frames interval (fadd current_time interval)
                  (sample_times @ [fadd st current_time]))
      else Inr sample_times)"
  by pat_completeness auto
termination
  by (relation "measure (\<lambda>(start, dur, max_frames, interval, current_time, sample_times).
        max_frames - length sample_times)") auto

declare sample_loop.simps [simp del]

text \<open>The sampling points, with the fallback to first, middle and last.\<close>

definition sample_times_of :: "'a scene_scheme \<Rightarrow> real \<Rightarrow> nat \<Rightarrow> real \<Rightarrow> py_error + real list" where
  "sample_times_of scene dur max_frames interval =
     (case sample_loop (start_time scene) dur max_frames interval 0 [] of
        Inl e \<Rightarrow> Inl e
      | Inr sample_times \<Rightarrow>
          (if length sample_times < max_frames
           then (case start_time scene of
                   None \<Rightarrow> Inl KeyError
                 | Some st \<Rightarrow>
                     (case end_time scene of
                        None \<Rightarrow> Inl KeyError
                      | Some en \<Rightarrow> Inr (take max_frames [st, fadd st (fdiv dur 2), fsub en (fl 0.1)])))
           else Inr sample_times))"

text \<open>The loop that reads and scores the frames; a failed read is skipped.\<close>

fun read_candidates :: "'f video \<Rightarrow> real \<Rightarrow> real list \<Rightarrow> 'f candidate list" where
  "read_candidates cap fps [] = []"
| "read_candidates cap fps (time_sec # sample_times) =
     (let number = py_int (fmul time_sec fps)
      in (case read_frame cap number of
            None \<Rightarrow> read_candidates cap fps sample_times
          | Some frame \<Rightarrow>
              \<lparr>cand_time = time_sec, cand_frame_number = number, cand_frame = frame,
               cand_quality_score = evaluate_frame_quality cap frame\<rparr>
                # read_candidates cap fps sample_times))"

text \<open>\<^verbatim>\<open>scene.get('selected_id') or scene.get('id')\<close>: \<open>None\<close> and \<open>0\<close> are falsy.\<close>

definition extractor_scene_id :: "'a scene_scheme \<Rightarrow> int option" where
  "extractor_scene_id scene =
     (case selected_id scene of
        None \<Rightarrow> scene_id scene
      | Some n \<Rightarrow> if n = 0 then scene_id scene else Some (int n))"

text \<open>
  The final loop, \<^verbatim>\<open>for idx, candidate in enumerate(selected)\<close>. Writing the image is an
  effect on the file system and is not modelled; \<open>paths\<close> stands for \<^verbatim>\<open>output_dir\<close> and
  \<^verbatim>\<open>prefix\<close>: it is \<open>None\<close> without an output directory, and otherwise gives the path
  \<^verbatim>\<open>output_dir/{prefix}{scene_id}_keyframe_{idx+1:02d}.jpg\<close> from the scene identifier and
  \<open>idx\<close>.
\<close>

fun make_keyframes ::
  "'f video \<Rightarrow> (int option \<Rightarrow> nat \<Rightarrow> string) option \<Rightarrow> int option \<Rightarrow> int option \<Rightarrow> nat \<Rightarrow>
   'f candidate list \<Rightarrow> keyframe list" where
  "make_keyframes cap paths sid sindex idx [] = []"
| "make_keyframes cap paths sid sindex idx (c # selected) =
     \<lparr>kf_scene_id = sid, kf_scene_index = sindex, keyframe_index = idx, time = cand_time c,
      frame_number = cand_frame_number c, quality_score = cand_quality_score c,
      image_path = (case paths of None \<Rightarrow> None | Some path \<Rightarrow> Some (path sid idx)),
      image_hash = Some (calculate_image_hash cap (cand_frame c))\<rparr>
       # make_keyframes cap paths sid sindex (Suc idx) selected"

text \<open>
  \<^verbatim>\<open>_extract_from_scene\<close> for an extractor built with \<^verbatim>\<open>mode\<close> and
  \<^verbatim>\<open>max_frames_per_scene\<close>.
\<close>

definition extract_from_scene ::
  "string \<Rightarrow> nat \<Rightarrow> 'f video \<Rightarrow> 'a scene_scheme \<Rightarrow> real \<Rightarrow>
   (int option \<Rightarrow> nat \<Rightarrow> string) option \<Rightarrow> py_error + keyframe list" where
  "extract_from_scene mode max_frames_per_scene cap scene fps paths =
     (let sid = extractor_scene_id scene;
          sindex = (case index scene of None \<Rightarrow> sid | Some i \<Rightarrow> Some i)
      in (case (start_frame scene, end_frame scene, duration scene) of
            (Some first_frame, Some last_frame, Some dur) \<Rightarrow>
              (case sample_times_of scene dur max_frames_per_scene (mode_interval mode) of
                 Inl e \<Rightarrow> Inl e
               | Inr sample_times \<Rightarrow>
                   (let candidates = read_candidates cap fps sample_times;
                        candidates = sort_key (\<lambda>x. - cand_quality_score x) candidates;
                        selected = take max_frames_per_scene candidates;
                        selected = sort_key cand_time selected
                    in Inr (make_keyframes cap paths sid sindex 0 selected)))
          | _ \<Rightarrow> Inl KeyError))"

text \<open>Python truthiness of \<^verbatim>\<open>kf.get('image_hash')\<close>: \<open>None\<close> and \<open>''\<close> are falsy.\<close>

definition truthy :: "string option \<Rightarrow> bool" where
  "truthy h = (case h of None \<Rightarrow> False | Some s \<Rightarrow> s \<noteq> [])"

text \<open>
  The loop of \<^verbatim>\<open>remove_duplicates\<close>, with its two accumulators
  \<^verbatim>\<open>unique_frames\<close> and \<^verbatim>\<open>seen_hashes\<close>, and the function itself.
\<close>

fun remove_duplicates_loop ::
  "keyframe list \<Rightarrow> keyframe list \<Rightarrow> string option set \<Rightarrow> keyframe list" where
  "remove_duplicates_loop [] unique_frames seen_hashes = unique_frames"
| "remove_duplicates_loop (kf # kfs) unique_frames seen_hashes =
     (let hash_val = image_hash kf
      in if \<not> truthy hash_val \<or> hash_val \<notin> seen_hashes
         then remove_duplicates_loop kfs (unique_frames @ [kf])
                (if truthy hash_val then insert hash_val seen_hashes else seen_hashes)
         else remove_duplicates_loop kfs unique_frames seen_hashes)"

definition remove_duplicates :: "keyframe list \<Rightarrow> real \<Rightarrow> keyframe list" where
  "remove_duplicates keyframes similarity_threshold =
     (if keyframes = [] then keyframes else remove_duplicates_loop keyframes [] {})"

subsection \<open>Notions used in the properties\<close>

text \<open>A keyframe that carries a hash: the key is present and not the empty string.\<close>

definition hashed :: "keyframe \<Rightarrow> bool" where
  "hashed kf = truthy (image_hash kf)"

text \<open>No keyframe before position \<open>i\<close> has the hash of the keyframe at position \<open>i\<close>.\<close>

definition first_occurrence :: "keyframe list \<Rightarrow> nat \<Rightarrow> bool" where
  "first_occurrence kfs i = (image_hash (kfs ! i) \<notin> image_hash ` set (take i kfs))"

text \<open>
  The keyframe at position \<open>i\<close> is kept by the loop started with the hashes \<open>seen\<close>.
\<close>

definition survives :: "string option set \<Rightarrow> keyframe list \<Rightarrow> nat \<Rightarrow> bool" where
  "survives seen kfs i =
     (\<not> truthy (image_hash (kfs ! i)) \<or>
      (image_hash (kfs ! i) \<notin> seen \<and> first_occurrence kfs i))"

text \<open>A keyframe for the examples, given by its time and hash.\<close>

definition sample_keyframe :: "real \<Rightarrow> string option \<Rightarrow> keyframe" where
  "sample_keyframe t h =
     \<lparr>kf_scene_id = Some 1, kf_scene_index = Some 0, keyframe_index = 0, time = t,
      frame_number = 0, quality_score = 0.5, image_path = None, image_hash = h\<rparr>"

definition sample_keyframes :: "keyframe list" where
  "sample_keyframes =
     [sample_keyframe 0 (Some ''00ff''), sample_keyframe 1 None,
      sample_keyframe 2 (Some ''00fe''), sample_keyframe 3 (Some ''00ff''),
      sample_keyframe 4 (Some ''''), sample_keyframe 5 None,
      sample_keyframe 6 (Some ''00fe'')]"

text \<open>
  A scene for the examples, as the detector delivers it: identifier, start and end; the
  duration is their difference as floats, the frame numbers are those at 25 frames per
  second.
\<close>

definition sample_scene :: "int \<Rightarrow> real \<Rightarrow> real \<Rightarrow> scene" where
  "sample_scene i s e =
     \<lparr>scene_id = Some i, index = Some (i - 1), start_time = Some s, end_time = Some e,
      duration = Some (fsub e s), start_frame = Some \<lfloor>s * 25\<rfloor>, end_frame = Some \<lfloor>e * 25\<rfloor>,
      selected_id = None\<rparr>"

text \<open>A scene with the two keys that \<^verbatim>\<open>_add_dialogue_to_scene\<close> adds.\<close>

definition with_dialogue :: "scene \<Rightarrow> string \<Rightarrow> nat \<Rightarrow> dialogue_scene" where
  "with_dialogue s d n = scene.extend s (dialogue_scene.fields d n)"

text \<open>A fused scene for the examples.\<close>

definition sample_fused_scene :: "nat fused_scene" where
  "sample_fused_scene =
     scene.extend (sample_scene 1 0 20)
       (fused_scene.fields
          (Some \<lparr>clip_labels = [''logo''], blip2_caption = ''a logo'', motion_score = 0.5\<rparr>)
          [''LEGENDARY''] [1, 2] (replicate 50 CHR ''x''))"

text \<open>The motion score that \<^verbatim>\<open>scene.get('visual', {}).get('motion_score', 0)\<close> reads.\<close>

definition motion_of :: "('face, 'a) fused_scene_scheme \<Rightarrow> real" where
  "motion_of scene = (case visual scene of None \<Rightarrow> 0 | Some v \<Rightarrow> motion_score v)"

text \<open>
  The overlap rule in the words of the specification: the subtitle starts in \<open>[s, e)\<close>, or
  ends in \<open>(s, e]\<close>, or contains \<open>[s, e]\<close>.
\<close>

definition spec_overlap :: "real \<Rightarrow> real \<Rightarrow> subtitle \<Rightarrow> bool" where
  "spec_overlap s e sub =
     (sub_start sub \<in> {s..<e} \<or> sub_end sub \<in> {s<..e} \<or>
      (sub_start sub \<le> s \<and> e \<le> sub_end sub))"

text \<open>Simple containment: the subtitle lies inside \<open>[s, e]\<close>.\<close>

definition spec_contained :: "real \<Rightarrow> real \<Rightarrow> subtitle \<Rightarrow> bool" where
  "spec_contained s e sub = (s \<le> sub_start sub \<and> sub_end sub \<le> e)"

text \<open>A subtitle for the examples.\<close>

definition sample_subtitle :: "real \<Rightarrow> real \<Rightarrow> string \<Rightarrow> subtitle" where
  "sample_subtitle s e t = \<lparr>sub_start = s, sub_end = e, sub_text = t\<rparr>"

definition sample_subtitles :: "subtitle list" where
  "sample_subtitles =
     [sample_subtitle 8 12 ''one'', sample_subtitle 12 15 ''two'',
      sample_subtitle 18 22 ''three'', sample_subtitle 22 25 ''four'']"

text \<open>
  Readers for keys known to be present. They are used only next to a statement that the
  key is there.
\<close>

definition start_of :: "'a scene_scheme \<Rightarrow> real" where
  "start_of s = the (start_time s)"

definition end_of :: "'a scene_scheme \<Rightarrow> real" where
  "end_of s = the (end_time s)"

definition duration_of :: "'a scene_scheme \<Rightarrow> real" where
  "duration_of s = the (duration s)"

text \<open>
  The body of the enrichment loop raises on this scene: \<^verbatim>\<open>_add_dialogue_to_scene\<close> or
  \<^verbatim>\<open>_calculate_highlight_score\<close> returns an exception.
\<close>

definition enrichment_fails :: "scene \<Rightarrow> subtitle list \<Rightarrow> bool" where
  "enrichment_fails scene subtitles =
     (case add_dialogue_to_scene scene subtitles of
        Inl e \<Rightarrow> True
      | Inr d \<Rightarrow> (case calculate_highlight_score d of Inl e \<Rightarrow> True | Inr x \<Rightarrow> False))"

text \<open>The keys that enrichment and scoring read from a scene.\<close>

definition enrichable :: "scene \<Rightarrow> bool" where
  "enrichable r = (start_time r \<noteq> None \<and> end_time r \<noteq> None \<and> duration r \<noteq> None)"

text \<open>
  The scene list as the detector guarantees it: every scene has its times and a positive
  duration, equal to end minus start (the difference of the two floats); the scenes are
  sorted by start time and do not overlap, each one ending before the later ones begin.
\<close>

definition detector_scene :: "scene \<Rightarrow> bool" where
  "detector_scene r =
     (start_time r \<noteq> None \<and> end_time r \<noteq> None \<and> duration r \<noteq> None \<and>
      0 < duration_of r \<and> duration_of r = fsub (end_of r) (start_of r))"

definition detector_scenes :: "scene list \<Rightarrow> bool" where
  "detector_scenes scenes =
     (list_all detector_scene scenes \<and>
      sorted_wrt (\<lambda>a b. start_of a \<le> start_of b \<and> end_of a \<le> start_of b) scenes)"

text \<open>A scored scene, built from a scene and the three keys added to it.\<close>

definition with_score :: "scene \<Rightarrow> string \<Rightarrow> nat \<Rightarrow> real \<Rightarrow> scored_scene" where
  "with_score s d n x = dialogue_scene.extend (with_dialogue s d n) (scored_scene.fields x)"

text \<open>
  The end-to-end scenario of the specification: two scenes, and four subtitles inside the
  first one whose texts, joined by spaces, have 80 characters.
\<close>

definition scenario_scenes :: "scene list" where
  "scenario_scenes = [sample_scene 1 0 8, sample_scene 2 8 20]"

definition scenario_subtitles :: "subtitle list" where
  "scenario_subtitles =
     [sample_subtitle 0 2 (replicate 20 CHR ''a''), sample_subtitle 2 4 (replicate 19 CHR ''b''),
      sample_subtitle 4 6 (replicate 19 CHR ''c''), sample_subtitle 6 8 (replicate 19 CHR ''d'')]"

definition scenario_dialogue :: string where
  "scenario_dialogue = join '' '' (map sub_text scenario_subtitles)"

text \<open>
  The value of \<^verbatim>\<open>_calculate_highlight_score\<close> as a function of the three values it reads:
  the length of the dialogue, the subtitle count and the duration.
\<close>

definition highlight_score_of :: "nat \<Rightarrow> nat \<Rightarrow> real \<Rightarrow> real" where
  "highlight_score_of dialogue_len n dur =
     py_round
       (fadd (fadd (fadd 0 (fmul (dialogue_score dialogue_len dur) (fl 0.4)))
                   (fmul (subtitle_score n) (fl 0.3)))
             (fmul (duration_score dur) (fl 0.3))) 2"

text \<open>The list that the greedy loop of \<^verbatim>\<open>select_highlights\<close> scans.\<close>

definition scan_order :: "scene list \<Rightarrow> subtitle list \<Rightarrow> scored_scene list" where
  "scan_order scenes subtitles =
     sort_key (\<lambda>x. - highlight_score x) (enrich_scenes scenes subtitles)"


text \<open>A scene whose \<^verbatim>\<open>duration\<close> key is missing.\<close>

definition broken_scene :: scene where
  "broken_scene = (sample_scene 1 0 8)\<lparr>duration := None\<rparr>"

text \<open>
  The value of \<^verbatim>\<open>total_duration\<close> once the greedy loop has accepted the scenes \<open>acc\<close>, in
  that order: their durations added one by one as floats, from \<open>0\<close>. For a list in any
  order it is what \<^verbatim>\<open>sum(s['duration'] for s in ...)\<close> computes by adding from left to
  right.
\<close>

definition running_total :: "'a scene_scheme list \<Rightarrow> real" where
  "running_total acc = foldl (\<lambda>tot s. fadd tot (duration_of s)) 0 acc"

text \<open>
  Three scenes whose times are floats next to 6, 5 and 11: in Python
  \<^verbatim>\<open>6.000000000000002\<close> is \<open>6 + 2\<^sup>-\<^sup>4\<^sup>9\<close>, \<^verbatim>\<open>6.000000000000003\<close> is \<open>6 + 3 * 2\<^sup>-\<^sup>5\<^sup>0\<close>,
  \<^verbatim>\<open>11.000000000000004\<close> is \<open>11 + 2\<^sup>-\<^sup>4\<^sup>8\<close> and \<^verbatim>\<open>5.000000000000001\<close>, the duration of the
  second scene, is \<open>5 + 2\<^sup>-\<^sup>5\<^sup>0\<close>. The second and the third scene have one subtitle of 80
  characters each.
\<close>

definition rounding_first :: scene where
  "rounding_first = sample_scene 1 0 (6 + 1 / 2 ^ 49)"

definition rounding_second :: scene where
  "rounding_second = sample_scene 2 (6 + 3 / 2 ^ 50) (11 + 1 / 2 ^ 48)"

definition rounding_third :: scene where
  "rounding_third = sample_scene 3 12 17"

definition rounding_scenes :: "scene list" where
  "rounding_scenes = [rounding_first, rounding_second, rounding_third]"

definition rounding_subtitles :: "subtitle list" where
  "rounding_subtitles =
     [sample_subtitle 7 8 (replicate 80 CHR ''a''), sample_subtitle 13 14 (replicate 80 CHR ''b'')]"

text \<open>
  Three scenes and four subtitles inside the last one: the last scene scores highest, the
  first two score the same.
\<close>

definition three_scenes :: "scene list" where
  "three_scenes = [sample_scene 1 0 12, sample_scene 2 12 20, sample_scene 3 20 28]"

definition late_subtitles :: "subtitle list" where
  "late_subtitles =
     [sample_subtitle 20 22 (replicate 20 CHR ''a''), sample_subtitle 22 24 (replicate 19 CHR ''b''),
      sample_subtitle 24 26 (replicate 19 CHR ''c''), sample_subtitle 26 28 (replicate 19 CHR ''d'')]"

definition late_dialogue :: string where
  "late_dialogue = join '' '' (map sub_text late_subtitles)"

text \<open>
  The sampling loop in the words of the specification: candidates are generated, from the
  start of the scene in steps of the interval, until \<open>max_frames\<close> of them are produced or the
  step exceeds the duration of the scene.
\<close>

function spec_sample_loop :: "real \<Rightarrow> real \<Rightarrow> nat \<Rightarrow> real \<Rightarrow> real \<Rightarrow> real list \<Rightarrow> real list" where
  "spec_sample_loop st dur max_frames interval step candidates =
     (if max_frames \<le> length candidates \<or> dur < step then candidates
      else spec_sample_loop st dur max_frames interval (fadd step interval)
             (candidates @ [fadd st step]))"
  by pat_completeness auto
termination
  by (relation "measure (\<lambda>(st, dur, max_frames, interval, step, candidates).
        max_frames - length candidates)") auto

declare spec_sample_loop.simps [simp del]

text \<open>
  The step of the sampling loop: the value of \<^verbatim>\<open>current_time\<close> after \<open>k\<close> passes, the
  interval added \<open>k\<close> times to \<open>0\<close> as floats.
\<close>

primrec loop_step :: "real \<Rightarrow> nat \<Rightarrow> real" where
  "loop_step interval 0 = 0"
| "loop_step interval (Suc k) = fadd (loop_step interval k) interval"

text \<open>
  The number of sampling points the loop of the code produces: the first step, counted
  from \<open>k\<close>, that is not below the duration, and \<open>max_frames\<close> if there is none before it.
\<close>

function loop_count_from :: "real \<Rightarrow> nat \<Rightarrow> real \<Rightarrow> nat \<Rightarrow> nat" where
  "loop_count_from dur max_frames interval k =
     (if k < max_frames \<and> loop_step interval k < dur
      then loop_count_from dur max_frames interval (Suc k)
      else k)"
  by pat_completeness auto
termination
  by (relation "measure (\<lambda>(dur, max_frames, interval, k). max_frames - k)") auto

declare loop_count_from.simps [simp del]

definition loop_count :: "real \<Rightarrow> nat \<Rightarrow> real \<Rightarrow> nat" where
  "loop_count dur max_frames interval = loop_count_from dur max_frames interval 0"

text \<open>
  A video for the examples: every frame can be read, a frame is its own number, and the
  quality is 0, 0.25, 0.5 or 0.75 according to the frame number.
\<close>

definition sample_video :: "int video" where
  "sample_video =
     \<lparr>read_frame = (\<lambda>n. Some n),
      evaluate_frame_quality = (\<lambda>f. real_of_int (f mod 4) / 4),
      calculate_image_hash = (\<lambda>f. if even f then ''00ff'' else ''ff00'')\<rparr>"

section \<open>Double precision arithmetic\<close>

subsection \<open>Rounding to an integer\<close>

lemma round_half_even_of_int [simp]: "round_half_even (of_int n) = n"
  by (simp add: round_half_even_def)

lemma round_half_even_cases:
  "round_half_even x = \<lfloor>x\<rfloor> \<or> round_half_even x = \<lfloor>x\<rfloor> + 1"
  by (simp add: round_half_even_def Let_def)

lemma round_half_even_ge: "of_int m \<le> x \<Longrightarrow> m \<le> round_half_even x"
proof -
  assume "of_int m \<le> x"
  then have "m \<le> \<lfloor>x\<rfloor>" by (simp add: le_floor_iff)
  with round_half_even_cases [of x] show ?thesis by auto
qed

lemma round_half_even_le: "x \<le> of_int m \<Longrightarrow> round_half_even x \<le> m"
proof (cases "x = of_int m")
  case True
  then show ?thesis by simp
next
  case False
  assume "x \<le> of_int m"
  with False have "x < of_int m" by simp
  then have "\<lfloor>x\<rfloor> < m" by (simp add: floor_less_iff)
  with round_half_even_cases [of x] show ?thesis by auto
qed

lemma round_half_even_mono:
  assumes "x \<le> y"
  shows "round_half_even x \<le> round_half_even y"
proof (cases "\<lfloor>x\<rfloor> = \<lfloor>y\<rfloor>")
  case True
  with assms have "x - of_int \<lfloor>x\<rfloor> \<le> y - of_int \<lfloor>y\<rfloor>" by simp
  with True show ?thesis
    by (auto simp: round_half_even_def Let_def)
next
  case False
  with assms have "\<lfloor>x\<rfloor> < \<lfloor>y\<rfloor>"
    using floor_mono [of x y] by simp
  moreover have "round_half_even x \<le> \<lfloor>x\<rfloor> + 1"
    using round_half_even_cases [of x] by auto
  moreover have "\<lfloor>y\<rfloor> \<le> round_half_even y"
    using round_half_even_cases [of y] by auto
  ultimately show ?thesis by simp
qed

subsection \<open>The exponent\<close>

lemma floor_log2_iff:
  assumes "0 < x"
  shows "(\<lfloor>log 2 x\<rfloor> = k) = (2 powi k \<le> x \<and> x < 2 powi (k + 1))"
proof -
  have "2 powr (real_of_int k + 1) = 2 powi (k + 1)"
    using powr_real_of_int' [of 2 "k + 1"] by simp
  then show ?thesis
    using floor_log_eq_powr_iff [OF assms, of 2 k] by (simp add: powr_real_of_int')
qed

lemma floor_log2_bounds:
  assumes "0 < x"
  shows "2 powi \<lfloor>log 2 x\<rfloor> \<le> x" and "x < 2 powi (\<lfloor>log 2 x\<rfloor> + 1)"
  using floor_log2_iff [OF assms, of "\<lfloor>log 2 x\<rfloor>"] by simp_all

lemma two_powi_pos [simp]: "0 < (2::real) powi k"
  by (simp add: power_int_def)

lemma two_powi_add: "(2::real) powi (a + b) = 2 powi a * 2 powi b"
  by (simp add: power_int_add)

lemma two_powi_diff: "(2::real) powi (a - b) = 2 powi a / 2 powi b"
  by (simp add: power_int_diff)

lemma fl_exponent_ge [simp]: "- 1074 \<le> fl_exponent x"
  by (simp add: fl_exponent_def)

lemma fl_exponent_le:
  assumes "x \<noteq> 0" and "\<bar>x\<bar> < 2 powi (e + 53)" and "- 1074 \<le> e"
  shows "fl_exponent x \<le> e"
proof -
  have pos: "0 < \<bar>x\<bar>" using assms(1) by simp
  have "\<lfloor>log 2 \<bar>x\<bar>\<rfloor> < e + 53"
  proof (rule ccontr)
    assume "\<not> \<lfloor>log 2 \<bar>x\<bar>\<rfloor> < e + 53"
    then have "(2::real) powi (e + 53) \<le> 2 powi \<lfloor>log 2 \<bar>x\<bar>\<rfloor>"
      by (intro power_int_increasing) simp_all
    with floor_log2_bounds(1) [OF pos] assms(2) show False by simp
  qed
  with assms(3) show ?thesis by (simp add: fl_exponent_def)
qed

lemma fl_exponent_bound:
  assumes "x \<noteq> 0"
  shows "\<bar>x\<bar> < 2 powi (fl_exponent x + 53)"
proof -
  have pos: "0 < \<bar>x\<bar>" using assms by simp
  have "\<lfloor>log 2 \<bar>x\<bar>\<rfloor> + 1 \<le> fl_exponent x + 53" by (simp add: fl_exponent_def)
  then have "(2::real) powi (\<lfloor>log 2 \<bar>x\<bar>\<rfloor> + 1) \<le> 2 powi (fl_exponent x + 53)"
    by (intro power_int_increasing) simp_all
  with floor_log2_bounds(2) [OF pos] show ?thesis by simp
qed

subsection \<open>Doubles are fixed points of \<open>fl\<close>\<close>

lemma fl_0 [simp]: "fl 0 = 0"
  by (simp add: fl_def)

lemma fl_multiple:
  assumes "x = of_int n * 2 powi E" and "fl_exponent x \<le> E"
  shows "fl x = x"
proof (cases "x = 0")
  case True
  then show ?thesis by simp
next
  case False
  define E' where "E' = fl_exponent x"
  define k where "k = nat (E - E')"
  have E: "E = E' + int k" using assms(2) by (simp add: k_def E'_def)
  have "x / 2 powi E' = of_int n * (2 powi E / 2 powi E')" by (simp add: assms(1))
  also have "2 powi E / 2 powi E' = (2::real) ^ k"
    by (simp add: E two_powi_add)
  also have "of_int n * (2::real) ^ k = of_int (n * 2 ^ k)" by simp
  finally have q: "x / 2 powi E' = of_int (n * 2 ^ k)" .
  have "round_half_even (x / 2 powi E') = n * 2 ^ k"
    unfolding q by (rule round_half_even_of_int)
  then have "fl x = of_int (n * 2 ^ k) * 2 powi E'"
    using False unfolding fl_def E'_def [symmetric] by simp
  also have "\<dots> = of_int n * (2 ^ k * 2 powi E')" by simp
  also have "(2::real) ^ k * 2 powi E' = 2 powi E"
    by (simp add: E two_powi_add)
  finally show ?thesis by (simp add: assms(1))
qed

lemma fl_mantissa_bound:
  assumes "x \<noteq> 0"
  shows "\<bar>round_half_even (x / 2 powi fl_exponent x)\<bar> \<le> 2 ^ 53"
proof -
  let ?E = "fl_exponent x"
  define q where "q = x / 2 powi ?E"
  have "\<bar>x\<bar> < 2 powi ?E * 2 ^ 53"
    using fl_exponent_bound [OF assms] by (simp add: two_powi_add)
  then have "\<bar>x\<bar> / 2 powi ?E < 2 ^ 53"
    by (simp add: pos_divide_less_eq mult.commute)
  then have b: "\<bar>q\<bar> < 2 ^ 53" by (simp add: q_def)
  have "q \<le> of_int (2 ^ 53)" using b by simp
  then have up: "round_half_even q \<le> 2 ^ 53" by (rule round_half_even_le)
  have "of_int (- (2 ^ 53)) \<le> q" using b by simp
  then have "- (2 ^ 53) \<le> round_half_even q" by (rule round_half_even_ge)
  with up show ?thesis unfolding q_def by simp
qed

lemma fl_idem [simp]: "fl (fl x) = fl x"
proof (cases "fl x = 0")
  case True
  then show ?thesis by simp
next
  case nz: False
  then have x: "x \<noteq> 0" by auto
  define E where "E = fl_exponent x"
  define n where "n = round_half_even (x / 2 powi E)"
  have y: "fl x = of_int n * 2 powi E"
    using x by (simp add: fl_def E_def n_def)
  have nb: "\<bar>n\<bar> \<le> 2 ^ 53" using fl_mantissa_bound [OF x] by (simp add: n_def E_def)
  have Eb: "- 1074 \<le> E" by (simp add: E_def)
  show ?thesis
  proof (cases "\<bar>n\<bar> < 2 ^ 53")
    case True
    then have "\<bar>real_of_int n\<bar> < 2 ^ 53"
      by (metis of_int_abs of_int_less_numeral_power_cancel_iff)
    then have "\<bar>fl x\<bar> < 2 powi (E + 53)"
      by (simp add: y abs_mult two_powi_add mult.commute)
    from fl_exponent_le [OF nz this Eb] have "fl_exponent (fl x) \<le> E" .
    from fl_multiple [OF y this] show ?thesis .
  next
    case False
    with nb have n2: "\<bar>n\<bar> = 2 ^ 53" by simp
    then have "n = 2 ^ 53 \<or> n = - (2 ^ 53)" by linarith
    then have "even n" by auto
    then have ev: "n = 2 * (n div 2)" by simp
    have y': "fl x = of_int (n div 2) * 2 powi (E + 1)"
    proof -
      have "of_int n * 2 powi E = of_int (2 * (n div 2)) * (2::real) powi E"
        using ev by simp
      also have "\<dots> = of_int (n div 2) * 2 powi (E + 1)"
        by (simp add: two_powi_add)
      finally show ?thesis by (simp add: y)
    qed
    have "\<bar>real_of_int n\<bar> = 2 ^ 53"
      using n2 by (metis of_int_abs of_int_numeral of_int_power)
    then have "\<bar>fl x\<bar> = 2 powi (E + 53)"
      by (simp add: y abs_mult two_powi_add mult.commute)
    also have "\<dots> < 2 powi (E + 1 + 53)"
      by (intro power_int_strict_increasing) simp_all
    finally have "\<bar>fl x\<bar> < 2 powi (E + 1 + 53)" .
    from fl_exponent_le [OF nz this] Eb have "fl_exponent (fl x) \<le> E + 1" by simp
    from fl_multiple [OF y' this] show ?thesis .
  qed
qed

subsection \<open>Sign and monotonicity\<close>

lemma fl_nonneg: "0 \<le> x \<Longrightarrow> 0 \<le> fl x"
proof -
  assume "0 \<le> x"
  then have "of_int 0 \<le> x / 2 powi fl_exponent x" by simp
  then have "0 \<le> round_half_even (x / 2 powi fl_exponent x)"
    by (rule round_half_even_ge)
  then show ?thesis by (simp add: fl_def)
qed



lemma fl_exponent_mono:
  assumes "0 < x" and "x \<le> y"
  shows "fl_exponent x \<le> fl_exponent y"
proof -
  have "log 2 \<bar>x\<bar> \<le> log 2 \<bar>y\<bar>" using assms by simp
  then have "\<lfloor>log 2 \<bar>x\<bar>\<rfloor> \<le> \<lfloor>log 2 \<bar>y\<bar>\<rfloor>" by (rule floor_mono)
  then show ?thesis by (simp add: fl_exponent_def)
qed

lemma fl_mono_pos:
  assumes "0 < x" and "x \<le> y"
  shows "fl x \<le> fl y"
proof -
  let ?Ex = "fl_exponent x" and ?Ey = "fl_exponent y"
  from assms have y: "0 < y" by simp
  have fx: "fl x = of_int (round_half_even (x / 2 powi ?Ex)) * 2 powi ?Ex"
    using assms(1) by (simp add: fl_def)
  have fy: "fl y = of_int (round_half_even (y / 2 powi ?Ey)) * 2 powi ?Ey"
    using y by (simp add: fl_def)
  show ?thesis
  proof (cases "?Ex = ?Ey")
    case True
    have "x / 2 powi ?Ey \<le> y / 2 powi ?Ey"
      using assms(2) by (simp add: divide_right_mono)
    then have "round_half_even (x / 2 powi ?Ey) \<le> round_half_even (y / 2 powi ?Ey)"
      by (rule round_half_even_mono)
    then show ?thesis unfolding fx fy True
      by (simp add: mult_right_mono)
  next
    case False
    with fl_exponent_mono [OF assms] have lt: "?Ex < ?Ey" by simp
    have "round_half_even (x / 2 powi ?Ex) \<le> 2 ^ 53"
      using fl_mantissa_bound [of x] assms(1) by simp
    then have "real_of_int (round_half_even (x / 2 powi ?Ex)) \<le> 2 ^ 53"
      by (metis of_int_le_numeral_power_cancel_iff)
    then have "fl x \<le> 2 ^ 53 * 2 powi ?Ex"
      unfolding fx by (simp add: mult_right_mono)
    also have "\<dots> = 2 powi (?Ex + 53)" by (simp add: two_powi_add)
    also have "\<dots> \<le> 2 powi (?Ey + 52)"
      using lt by (intro power_int_increasing) simp_all
    finally have up: "fl x \<le> 2 powi (?Ey + 52)" .
    have "- 1074 < ?Ey" using lt fl_exponent_ge [of x] by linarith
    then have Ey: "?Ey = \<lfloor>log 2 \<bar>y\<bar>\<rfloor> - 52" by (simp add: fl_exponent_def max_def split: if_splits)
    have "2 powi (?Ey + 52) \<le> y"
      using floor_log2_bounds(1) [of "\<bar>y\<bar>"] y by (simp add: Ey)
    then have "2 ^ 52 * 2 powi ?Ey \<le> y" by (simp add: two_powi_add mult.commute)
    then have "of_int (2 ^ 52) \<le> y / 2 powi ?Ey"
      by (simp add: pos_le_divide_eq)
    then have "2 ^ 52 \<le> round_half_even (y / 2 powi ?Ey)"
      by (rule round_half_even_ge)
    then have "(2::real) ^ 52 \<le> real_of_int (round_half_even (y / 2 powi ?Ey))"
      by (metis of_int_numeral of_int_power of_int_le_iff)
    then have "2 ^ 52 * 2 powi ?Ey \<le> fl y"
      unfolding fy by (simp add: mult_right_mono)
    then have "2 powi (?Ey + 52) \<le> fl y" by (simp add: two_powi_add mult.commute)
    with up show ?thesis by simp
  qed
qed

lemma fl_mono_nonneg:
  assumes "0 \<le> x" and "x \<le> y"
  shows "fl x \<le> fl y"
proof (cases "x = 0")
  case True
  with assms fl_nonneg [of y] show ?thesis by simp
next
  case False
  with assms have "0 < x" by simp
  from fl_mono_pos [OF this assms(2)] show ?thesis .
qed

subsection \<open>Evaluation of \<open>fl\<close>\<close>

text \<open>
  Three ways to compute \<open>fl\<close> at a given number: a multiple of a power of two with a
  mantissa below \<open>2\<^sup>5\<^sup>3\<close> is a double; so is an integer below \<open>2\<^sup>5\<^sup>3\<close>; and for any
  other number, once it is scaled into \<open>[2\<^sup>5\<^sup>2, 2\<^sup>5\<^sup>3)\<close>, rounding it to an integer
  gives the mantissa.
\<close>

lemma fl_dyadic:
  assumes "\<bar>m\<bar> < 2 ^ 53" and "n \<le> 1074"
  shows "fl (of_int m / 2 ^ n) = of_int m / 2 ^ n"
proof (cases "m = 0")
  case True
  then show ?thesis by simp
next
  case False
  let ?x = "real_of_int m / 2 ^ n"
  have x: "?x = of_int m * 2 powi (- int n)"
    by (simp add: power_int_minus divide_inverse)
  have nz: "?x \<noteq> 0" using False by simp
  have "\<bar>real_of_int m\<bar> < 2 ^ 53"
    using assms(1) by (metis of_int_abs of_int_less_numeral_power_cancel_iff)
  then have "\<bar>?x\<bar> < 2 ^ 53 * 2 powi (- int n)"
    unfolding x by (simp add: abs_mult)
  also have "\<dots> = 2 powi (- int n + 53)"
    using two_powi_add [of "- int n" 53] by simp
  finally have "\<bar>?x\<bar> < 2 powi (- int n + 53)" .
  from fl_exponent_le [OF nz this] assms(2) have "fl_exponent ?x \<le> - int n" by simp
  from fl_multiple [OF x this] show ?thesis .
qed

lemma fl_int:
  assumes "\<bar>m\<bar> < 2 ^ 53"
  shows "fl (of_int m) = of_int m"
  using fl_dyadic [OF assms, of 0] by simp

lemma fl_scale:
  assumes "2 ^ 52 \<le> \<bar>x\<bar> * 2 ^ n" and "\<bar>x\<bar> * 2 ^ n < 2 ^ 53" and "n \<le> 1074"
  shows "fl x = of_int (round_half_even (x * 2 ^ n)) / 2 ^ n"
proof -
  have nz: "x \<noteq> 0" using assms(1) by auto
  then have pos: "0 < \<bar>x\<bar>" by simp
  have p: "(2::real) powi (- int n) = 1 / 2 ^ n"
    by (simp add: power_int_minus divide_inverse)
  have "2 powi (52 - int n) \<le> \<bar>x\<bar>"
    using assms(1) by (simp add: two_powi_diff pos_divide_le_eq)
  moreover have "\<bar>x\<bar> < 2 powi (52 - int n + 1)"
  proof -
    have "(2::real) powi (52 - int n + 1) = 2 ^ 53 / 2 ^ n"
      using two_powi_diff [of 53 "int n"] by simp
    with assms(2) show ?thesis by (simp add: pos_less_divide_eq)
  qed
  ultimately have "\<lfloor>log 2 \<bar>x\<bar>\<rfloor> = 52 - int n"
    using floor_log2_iff [OF pos] by simp
  then have E: "fl_exponent x = - int n"
    using assms(3) by (simp add: fl_exponent_def)
  show ?thesis using nz by (simp add: fl_def E p)
qed

lemma fl_numeral [simp]:
  "numeral k < (9007199254740992 :: int) \<Longrightarrow> fl (numeral k) = numeral k"
  using fl_int [of "numeral k"] by simp

lemma fl_1 [simp]: "fl 1 = 1"
  using fl_int [of 1] by simp

lemma fl_of_nat:
  assumes "n < 2 ^ 53"
  shows "fl (real n) = real n"
proof -
  from assms have "int n < 2 ^ 53" by (metis of_nat_less_numeral_power_cancel_iff)
  then have "\<bar>int n\<bar> < 2 ^ 53" by simp
  from fl_int [OF this] show ?thesis by simp
qed

subsection \<open>The operators\<close>

lemma is_double_fl [simp]: "is_double (fl x)"
  by (simp add: is_double_def)

lemma is_double_ops [simp]:
  "is_double (fadd x y)" "is_double (fsub x y)" "is_double (fmul x y)" "is_double (fdiv x y)"
  by (simp_all add: fadd_def fsub_def fmul_def fdiv_def)

lemma is_double_numeral [simp]:
  "numeral k < (9007199254740992 :: int) \<Longrightarrow> is_double (numeral k)"
  by (simp add: is_double_def)

lemma is_double_0 [simp]: "is_double 0"
  by (simp add: is_double_def)

lemma is_double_py_round [simp]: "is_double (py_round x n)"
  by (simp add: py_round_def)

lemma fadd_0_left: "is_double y \<Longrightarrow> fadd 0 y = y"
  by (simp add: fadd_def is_double_def)

lemma fadd_0_fl [simp]: "fadd 0 (fl y) = fl y"
  by (simp add: fadd_def)

lemma fadd_0_fmul [simp]: "fadd 0 (fmul x y) = fmul x y"
  by (simp add: fadd_def fmul_def)

lemma fmul_0_left [simp]: "fmul 0 y = 0"
  by (simp add: fmul_def)

lemma fmul_commute: "fmul x y = fmul y x"
  by (simp add: fmul_def mult.commute)

lemma fadd_commute: "fadd x y = fadd y x"
  by (simp add: fadd_def add.commute)

lemma fadd_nonneg: "0 \<le> x \<Longrightarrow> 0 \<le> y \<Longrightarrow> 0 \<le> fadd x y"
  by (simp add: fadd_def fl_nonneg)

text \<open>Adding a non-negative float to a non-negative total does not give less than it.\<close>

lemma fadd_ge_right:
  assumes "0 \<le> x" and "0 \<le> y" and "is_double y"
  shows "y \<le> fadd x y"
proof -
  have "fl y \<le> fl (x + y)"
    by (rule fl_mono_nonneg) (use assms in simp_all)
  with assms(3) show ?thesis by (simp add: fadd_def is_double_def)
qed


subsection \<open>Values of \<open>fl\<close> used in the examples\<close>

lemma fl_fact_31: "fl (5 / 2) = 5 / 2"
  using fl_dyadic [of "5" 1] by simp

lemma fl_fact_32: "fl (15 / 2) = 15 / 2"
  using fl_dyadic [of "15" 1] by simp

lemma fl_fact_33: "fl (25 / 2) = 25 / 2"
  using fl_dyadic [of "25" 1] by simp

lemma fl_fact_34: "fl (85 / 2) = 85 / 2"
  using fl_dyadic [of "85" 1] by simp

lemma fl_fact_35: "fl (19 / 3) = 7130699410003285 / 1125899906842624"
  by (subst fl_scale [where n = 50]) (simp_all add: round_half_even_def)

lemma fl_fact_36: "fl (1 / 4) = 1 / 4"
  using fl_dyadic [of "1" 2] by simp

lemma fl_fact_37: "fl (3 / 4) = 3 / 4"
  using fl_dyadic [of "3" 2] by simp

lemma fl_fact_38: "fl (5 / 4) = 5 / 4"
  using fl_dyadic [of "5" 2] by simp

lemma fl_fact_39: "fl (61 / 4) = 61 / 4"
  using fl_dyadic [of "61" 2] by simp

lemma fl_fact_40: "fl (125 / 4) = 125 / 4"
  using fl_dyadic [of "125" 2] by simp

lemma fl_fact_41: "fl (397 / 4) = 397 / 4"
  using fl_dyadic [of "397" 2] by simp

lemma fl_fact_42: "fl (1 / 5) = 3602879701896397 / 18014398509481984"
  by (subst fl_scale [where n = 55]) (simp_all add: round_half_even_def)

lemma fl_fact_43: "fl (2 / 5) = 3602879701896397 / 9007199254740992"
  by (subst fl_scale [where n = 54]) (simp_all add: round_half_even_def)

lemma fl_fact_44: "fl (3 / 5) = 5404319552844595 / 9007199254740992"
  by (subst fl_scale [where n = 53]) (simp_all add: round_half_even_def)

lemma fl_fact_45: "fl (1 / 10) = 3602879701896397 / 36028797018963968"
  by (subst fl_scale [where n = 56]) (simp_all add: round_half_even_def)

lemma fl_fact_46: "fl (3 / 10) = 5404319552844595 / 18014398509481984"
  by (subst fl_scale [where n = 54]) (simp_all add: round_half_even_def)

lemma fl_fact_47: "fl (7 / 10) = 3152519739159347 / 4503599627370496"
  by (subst fl_scale [where n = 53]) (simp_all add: round_half_even_def)

lemma fl_fact_48: "fl (39 / 10) = 8782019273372467 / 2251799813685248"
  by (subst fl_scale [where n = 51]) (simp_all add: round_half_even_def)

lemma fl_fact_49: "fl (169 / 10) = 2378463553205043 / 140737488355328"
  by (subst fl_scale [where n = 48]) (simp_all add: round_half_even_def)

lemma fl_fact_50: "fl (5 / 16) = 5 / 16"
  using fl_dyadic [of "5" 4] by simp

lemma fl_fact_51: "fl (3 / 20) = 5404319552844595 / 36028797018963968"
  by (subst fl_scale [where n = 55]) (simp_all add: round_half_even_def)

lemma fl_fact_52: "fl (19 / 20) = 4278419646001971 / 4503599627370496"
  by (subst fl_scale [where n = 53]) (simp_all add: round_half_even_def)

lemma fl_fact_53: "fl (2977 / 100) = 8379510056676229 / 281474976710656"
  by (subst fl_scale [where n = 48]) (simp_all add: round_half_even_def)

lemma fl_fact_54: "fl (35676953298075645 / 70368744177664) = 8919238324518911 / 17592186044416"
  by (subst fl_scale [where n = 44]) (simp_all add: round_half_even_def)

lemma fl_fact_55: "fl (4190458715779891 / 140737488355328) = 4190458715779891 / 140737488355328"
  using fl_dyadic [of "4190458715779891" 47] by simp

lemma fl_fact_56: "fl (70016900456775675 / 140737488355328) = 8752112557096959 / 17592186044416"
  by (subst fl_scale [where n = 44]) (simp_all add: round_half_even_def)

lemma fl_fact_57: "fl (3096224743817217 / 281474976710656) = 3096224743817217 / 281474976710656"
  using fl_dyadic [of "3096224743817217" 48] by simp

lemma fl_fact_58: "fl (4278419646001971 / 281474976710656) = 4278419646001971 / 281474976710656"
  using fl_dyadic [of "4278419646001971" 48] by simp

lemma fl_fact_59: "fl (4503599627370497 / 281474976710656) = 4503599627370497 / 281474976710656"
  using fl_dyadic [of "4503599627370497" 48] by simp

lemma fl_fact_60: "fl (5348024557502463 / 281474976710656) = 5348024557502463 / 281474976710656"
  using fl_dyadic [of "5348024557502463" 48] by simp

lemma fl_fact_61: "fl (7036874417766399 / 281474976710656) = 7036874417766399 / 281474976710656"
  using fl_dyadic [of "7036874417766399" 48] by simp

lemma fl_fact_62: "fl (3377699720527873 / 562949953421312) = 3377699720527873 / 562949953421312"
  using fl_dyadic [of "3377699720527873" 49] by simp

lemma fl_fact_63: "fl (4278419646001971 / 562949953421312) = 4278419646001971 / 562949953421312"
  using fl_dyadic [of "4278419646001971" 49] by simp

lemma fl_fact_64: "fl (9007199254740993 / 562949953421312) = 16"
  by (subst fl_scale [where n = 48]) (simp_all add: round_half_even_def)

lemma fl_fact_65: "fl (35653497050016425 / 562949953421312) = 4456687131252053 / 70368744177664"
  by (subst fl_scale [where n = 47]) (simp_all add: round_half_even_def)

lemma fl_fact_66: "fl (112589990684262375 / 562949953421312) = 3518437208883199 / 17592186044416"
  by (subst fl_scale [where n = 45]) (simp_all add: round_half_even_def)

lemma fl_fact_67: "fl (5629499534213121 / 1125899906842624) = 5629499534213121 / 1125899906842624"
  using fl_dyadic [of "5629499534213121" 50] by simp

lemma fl_fact_68: "fl (6755399441055747 / 1125899906842624) = 6755399441055747 / 1125899906842624"
  using fl_dyadic [of "6755399441055747" 50] by simp

lemma fl_fact_69: "fl (11258999068426241 / 1125899906842624) = 10"
  by (subst fl_scale [where n = 49]) (simp_all add: round_half_even_def)

lemma fl_fact_70: "fl (12384898975268867 / 1125899906842624) = 3096224743817217 / 281474976710656"
  by (subst fl_scale [where n = 49]) (simp_all add: round_half_even_def)

lemma fl_fact_71: "fl (27021597764222975 / 1125899906842624) = 24"
  by (subst fl_scale [where n = 48]) (simp_all add: round_half_even_def)

lemma fl_fact_72: "fl (106960491150049275 / 1125899906842624) = 95"
  by (subst fl_scale [where n = 46]) (simp_all add: round_half_even_def)

lemma fl_fact_73: "fl (1426139882000657 / 2251799813685248) = 1426139882000657 / 2251799813685248"
  using fl_dyadic [of "1426139882000657" 51] by simp

lemma fl_fact_74: "fl (4503599627370495 / 2251799813685248) = 4503599627370495 / 2251799813685248"
  using fl_dyadic [of "4503599627370495" 51] by simp

lemma fl_fact_75: "fl (90071992547409925 / 2251799813685248) = 40"
  by (subst fl_scale [where n = 47]) (simp_all add: round_half_even_def)

lemma fl_fact_76: "fl (135107988821114875 / 2251799813685248) = 60"
  by (subst fl_scale [where n = 47]) (simp_all add: round_half_even_def)

lemma fl_fact_77: "fl (178267485250082125 / 2251799813685248) = 2785429457032533 / 35184372088832"
  by (subst fl_scale [where n = 46]) (simp_all add: round_half_even_def)

lemma fl_fact_78: "fl (219550481834311675 / 2251799813685248) = 195 / 2"
  by (subst fl_scale [where n = 46]) (simp_all add: round_half_even_def)

lemma fl_fact_79: "fl (21392098230009855 / 4503599627370496) = 19 / 4"
  by (subst fl_scale [where n = 50]) (simp_all add: round_half_even_def)

lemma fl_fact_80: "fl (27021597764222975 / 4503599627370496) = 6"
  by (subst fl_scale [where n = 50]) (simp_all add: round_half_even_def)

lemma fl_fact_81: "fl (54043195528445955 / 4503599627370496) = 12"
  by (subst fl_scale [where n = 49]) (simp_all add: round_half_even_def)

lemma fl_fact_82: "fl (81064793292668925 / 4503599627370496) = 18"
  by (subst fl_scale [where n = 48]) (simp_all add: round_half_even_def)

lemma fl_fact_83: "fl (135107988821114875 / 4503599627370496) = 30"
  by (subst fl_scale [where n = 48]) (simp_all add: round_half_even_def)

lemma fl_fact_84: "fl (90071992547409920 / 5629499534213121) = 4503599627370495 / 281474976710656"
  by (subst fl_scale [where n = 49]) (simp_all add: round_half_even_def)

lemma fl_fact_85: "fl (7130699410003285 / 9007199254740992) = 7130699410003285 / 9007199254740992"
  using fl_dyadic [of "7130699410003285" 53] by simp

lemma fl_fact_86: "fl (27021597764222975 / 9007199254740992) = 3"
  by (subst fl_scale [where n = 51]) (simp_all add: round_half_even_def)

lemma fl_fact_87: "fl (54043195528445955 / 9007199254740992) = 6"
  by (subst fl_scale [where n = 50]) (simp_all add: round_half_even_def)

lemma fl_fact_88: "fl (90071992547409925 / 9007199254740992) = 10"
  by (subst fl_scale [where n = 49]) (simp_all add: round_half_even_def)

lemma fl_fact_89: "fl (135107988821114875 / 18014398509481984) = 15 / 2"
  by (subst fl_scale [where n = 50]) (simp_all add: round_half_even_def)

lemma fl_fact_90: "fl (140512308373959475 / 36028797018963968) = 8782019273372467 / 2251799813685248"
  by (subst fl_scale [where n = 51]) (simp_all add: round_half_even_def)

lemma fl_fact_91: "fl (270215977642229775 / 36028797018963968) = 15 / 2"
  by (subst fl_scale [where n = 50]) (simp_all add: round_half_even_def)

lemma fl_fact_92: "fl (608886669620491059 / 36028797018963968) = 2378463553205043 / 140737488355328"
  by (subst fl_scale [where n = 48]) (simp_all add: round_half_even_def)

lemma fl_fact_93: "fl (716973060677382963 / 36028797018963968) = 2800676018271027 / 140737488355328"
  by (subst fl_scale [where n = 48]) (simp_all add: round_half_even_def)

lemma fl_fact_94: "fl (2145514862479304215 / 72057594037927936) = 4190458715779891 / 140737488355328"
  by (subst fl_scale [where n = 48]) (simp_all add: round_half_even_def)

lemma fl_fact_95: "fl (24085361404336355935660083703535 / 1267650600228229401496703205376) = 5348024557502463 / 281474976710656"
  by (subst fl_scale [where n = 48]) (simp_all add: round_half_even_def)

lemmas fl_facts =
  fl_fact_31 fl_fact_32 fl_fact_33 fl_fact_34 fl_fact_35 fl_fact_36 fl_fact_37 fl_fact_38
  fl_fact_39 fl_fact_40 fl_fact_41 fl_fact_42 fl_fact_43 fl_fact_44 fl_fact_45 fl_fact_46
  fl_fact_47 fl_fact_48 fl_fact_49 fl_fact_50 fl_fact_51 fl_fact_52 fl_fact_53 fl_fact_54
  fl_fact_55 fl_fact_56 fl_fact_57 fl_fact_58 fl_fact_59 fl_fact_60 fl_fact_61 fl_fact_62
  fl_fact_63 fl_fact_64 fl_fact_65 fl_fact_66 fl_fact_67 fl_fact_68 fl_fact_69 fl_fact_70
  fl_fact_71 fl_fact_72 fl_fact_73 fl_fact_74 fl_fact_75 fl_fact_76 fl_fact_77 fl_fact_78
  fl_fact_79 fl_fact_80 fl_fact_81 fl_fact_82 fl_fact_83 fl_fact_84 fl_fact_85 fl_fact_86
  fl_fact_87 fl_fact_88 fl_fact_89 fl_fact_90 fl_fact_91 fl_fact_92 fl_fact_93 fl_fact_94
  fl_fact_95

section \<open>Dialogue aggregation\<close>

lemma subtitle_in_scene_spec: "subtitle_in_scene s e = spec_overlap s e"
  by (rule ext) (auto simp: subtitle_in_scene_def spec_overlap_def)

text \<open>
  The dialogue-only path selects the subtitles that satisfy the permissive rule, joins
  their texts with spaces in input order and counts them.
\<close>

lemma add_dialogue_to_scene_overlap:
  assumes "start_time scene = Some s" and "end_time scene = Some e"
  shows "\<exists>r. add_dialogue_to_scene scene subs = Inr r
           \<and> dialogue r = join '' '' (map sub_text (filter (spec_overlap s e) subs))
           \<and> subtitle_count r = length (filter (spec_overlap s e) subs)"
  using assms
  by (simp add: add_dialogue_to_scene_def subtitle_in_scene_spec Let_def
      scene.defs dialogue_scene.defs)

text \<open>The fusion path selects the subtitles contained in the scene.\<close>

lemma dialogues_in_range_contained:
  "dialogues_in_range subs s e = map sub_text (filter (spec_contained s e) subs)"
  by (induction subs) (simp_all add: spec_contained_def)

lemma get_dialogue_in_range_contained:
  "get_dialogue_in_range subs s e = join '' '' (map sub_text (filter (spec_contained s e) subs))"
  by (simp add: get_dialogue_in_range_def dialogues_in_range_contained)

lemma fused_dialogue_of_fusion:
  "fuse_multimodal_data [sample_scene 1 10 20] [] [] ([] :: nat face_item list)
     [sample_subtitle 8 12 ''one''] =
   Inr [fused_scene.extend
          (scene.extend (sample_scene 1 10 20) (fused_scene.fields None [] [] ''''))
          (scored_fused_scene.fields 10)]"
  by (simp add: get_dialogue_in_range_def get_data_in_range_def merge_vision_data_def
      merge_ocr_data_def merge_face_data_def mf_calculate_highlight_score_def
      mf_duration_score_def sample_scene_def sample_subtitle_def Let_def float_of_nat_def
      scene.defs fused_scene.defs fadd_def fsub_def fmul_def fdiv_def fl_facts)

text \<open>
  Claim C3 holds on the dialogue-only path and fails on the fusion path. A subtitle from 8
  to 12 with the text \<open>one\<close> overlaps the scene from 10 to 20 under the permissive rule (it
  ends inside the scene). \<open>_add_dialogue_to_scene\<close> includes it: the dialogue is \<open>one\<close>, the
  count is 1. \<open>_get_dialogue_in_range\<close> tests containment and leaves it out: the dialogue
  is empty, and so is the dialogue of the scene that \<open>fuse_multimodal_data\<close> returns. With
  four subtitles, of which the first and the third straddle a boundary of the scene, the
  first path gives \<open>one two three\<close> and the second \<open>two\<close>.
\<close>

theorem fusion_dialogue_not_permissive:
  "spec_overlap 10 20 (sample_subtitle 8 12 ''one'')
   \<and> add_dialogue_to_scene (sample_scene 1 10 20) [sample_subtitle 8 12 ''one''] =
       Inr (with_dialogue (sample_scene 1 10 20) ''one'' 1)
   \<and> join '' '' (map sub_text (filter (spec_overlap 10 20) [sample_subtitle 8 12 ''one''])) =
       ''one''
   \<and> get_dialogue_in_range [sample_subtitle 8 12 ''one''] 10 20 = ''''
   \<and> add_dialogue_to_scene (sample_scene 1 10 20) sample_subtitles =
       Inr (with_dialogue (sample_scene 1 10 20) ''one two three'' 3)
   \<and> get_dialogue_in_range sample_subtitles 10 20 = ''two''
   \<and> map fused_dialogue
       (projr (fuse_multimodal_data [sample_scene 1 10 20] [] [] ([] :: nat face_item list)
                 [sample_subtitle 8 12 ''one''])) = ['''']"
proof -
  have "add_dialogue_to_scene (sample_scene 1 10 20) [sample_subtitle 8 12 ''one''] =
       Inr (with_dialogue (sample_scene 1 10 20) ''one'' 1)"
    by (simp add: add_dialogue_to_scene_def subtitle_in_scene_def sample_subtitle_def
        sample_scene_def with_dialogue_def Let_def)
  moreover have "add_dialogue_to_scene (sample_scene 1 10 20) sample_subtitles =
       Inr (with_dialogue (sample_scene 1 10 20) ''one two three'' 3)"
    by (simp add: add_dialogue_to_scene_def subtitle_in_scene_def sample_subtitles_def
        sample_subtitle_def sample_scene_def with_dialogue_def Let_def numeral_3_eq_3)
  moreover have "get_dialogue_in_range sample_subtitles 10 20 = ''two''"
    by (simp add: get_dialogue_in_range_def sample_subtitles_def sample_subtitle_def)
  moreover have "map fused_dialogue
       (projr (fuse_multimodal_data [sample_scene 1 10 20] [] [] ([] :: nat face_item list)
                 [sample_subtitle 8 12 ''one''])) = ['''']"
    unfolding fused_dialogue_of_fusion by (simp add: scene.defs fused_scene.defs)
  ultimately show ?thesis
    by (simp add: get_dialogue_in_range_def spec_overlap_def sample_subtitle_def)
qed

section \<open>Scoring\<close>

subsection \<open>The dialogue-only score\<close>

lemma calculate_highlight_score_formula:
  assumes "duration scene = Some d" and "0 < d"
  shows "calculate_highlight_score scene =
     Inr (py_round
            (fadd (fadd (fmul (fl 0.4)
                           (min (fmul (fdiv (fdiv (float_of_nat (length (dialogue scene))) d) 8)
                                  100) 100))
                        (fmul (fl 0.3) (min (real (subtitle_count scene) * 20) 100)))
                  (fmul (fl 0.3) (duration_score d))) 2)"
proof -
  have ds: "dialogue_score (length (dialogue scene)) d =
      min (fmul (fdiv (fdiv (float_of_nat (length (dialogue scene))) d) 8) 100) 100"
    using assms(2)
    by (simp add: dialogue_score_def Let_def float_of_nat_def fdiv_def fmul_def)
  have ss: "subtitle_score (subtitle_count scene) = min (real (subtitle_count scene) * 20) 100"
    by (simp add: subtitle_score_def)
  show ?thesis
    using assms(1)
    by (simp add: calculate_highlight_score_def Let_def ds ss fmul_commute [of _ "fl _"])
qed

lemma duration_score_cases:
  "5 \<le> d \<and> d \<le> 15 \<longrightarrow> duration_score d = 100"
  "d < 5 \<longrightarrow> duration_score d = fmul (fdiv d 5) 100"
  "15 < d \<longrightarrow> duration_score d = max 0 (fsub 100 (fmul (fsub d 15) 3))"
  by (simp_all add: duration_score_def)

lemma duration_score_examples:
  "duration_score 10 = 100" "duration_score 2 = 40"
  "duration_score 20 = 85" "duration_score 30 = 55"
  by (simp_all add: duration_score_def fdiv_def fmul_def fsub_def fl_facts)

lemma with_dialogue_fields [simp]:
  "dialogue (with_dialogue s d n) = d"
  "subtitle_count (with_dialogue s d n) = n"
  "duration (with_dialogue s d n) = duration s"
  by (simp_all add: with_dialogue_def scene.defs dialogue_scene.defs)

lemma sample_scene_fields [simp]:
  "scene_id (sample_scene i s e) = Some i"
  "start_time (sample_scene i s e) = Some s"
  "end_time (sample_scene i s e) = Some e"
  "duration (sample_scene i s e) = Some (fsub e s)"
  "selected_id (sample_scene i s e) = None"
  "debug_message_keys (sample_scene i s e)"
  by (simp_all add: sample_scene_def debug_message_keys_def)

text \<open>
  Two scores computed step by step. The second one is a scene of 15.25 seconds without
  dialogue: the duration score is 99.25, the product with the float \<open>0.3\<close> is the float just
  below 29.775, and \<^verbatim>\<open>round\<close> gives 29.77.
\<close>

lemma score_examples:
  "calculate_highlight_score (with_dialogue (sample_scene 1 0 10) (replicate 80 CHR ''a'') 3)
     = Inr 88"
  "calculate_highlight_score (with_dialogue (sample_scene 1 0 15.25) [] 0) = Inr (fl 29.77)"
  "fmul 99.25 (fl 0.3) < 29.775"
  by (simp_all add: calculate_highlight_score_def dialogue_score_def subtitle_score_def
      duration_score_def Let_def float_of_nat_def py_round_def round_half_even_def
      fadd_def fsub_def fmul_def fdiv_def fl_facts)

text \<open>
  Claim C4. For every scene with \<open>duration > 0\<close>, the dialogue-only score is
  \<open>round(0.4 * min(len(dialogue)/duration/8*100, 100) + 0.3 * min(subtitle_count*20, 100)
  + 0.3 * duration_score, 2)\<close>, evaluated from left to right in float arithmetic, where
  \<open>duration_score\<close> is 100 between 5 and 15 seconds, \<open>duration/5*100\<close> below 5 and
  \<open>max(0, 100 - (duration-15)*3)\<close> above 15; it is 100, 40, 85 and 55 at durations 10, 2,
  20 and 30.
\<close>

theorem dialogue_only_score:
  assumes "duration scene = Some d" and "0 < d"
  shows "calculate_highlight_score scene =
           Inr (py_round
                  (fadd (fadd (fmul (fl 0.4)
                                 (min (fmul (fdiv (fdiv (float_of_nat (length (dialogue scene))) d)
                                               8) 100) 100))
                              (fmul (fl 0.3) (min (real (subtitle_count scene) * 20) 100)))
                        (fmul (fl 0.3) (duration_score d))) 2)
         \<and> (5 \<le> d \<and> d \<le> 15 \<longrightarrow> duration_score d = 100)
         \<and> (d < 5 \<longrightarrow> duration_score d = fmul (fdiv d 5) 100)
         \<and> (15 < d \<longrightarrow> duration_score d = max 0 (fsub 100 (fmul (fsub d 15) 3)))
         \<and> duration_score 10 = 100 \<and> duration_score 2 = 40
         \<and> duration_score 20 = 85 \<and> duration_score 30 = 55"
  using calculate_highlight_score_formula [OF assms] duration_score_cases [of d]
    duration_score_examples
  by blast

theorem dialogue_only_score_witness:
  "duration (with_dialogue (sample_scene 1 0 10) (replicate 80 CHR ''a'') 3) = Some 10
   \<and> (0 :: real) < 10
   \<and> calculate_highlight_score (with_dialogue (sample_scene 1 0 10) (replicate 80 CHR ''a'') 3)
       = Inr 88
   \<and> py_round
       (fadd (fadd (fmul (fl 0.4) (min (fmul (fdiv (fdiv (float_of_nat 80) 10) 8) 100) 100))
                   (fmul (fl 0.3) (min (real 3 * 20) 100)))
             (fmul (fl 0.3) (duration_score 10))) 2 = 88
   \<and> duration (with_dialogue (sample_scene 1 0 15.25) [] 0) = Some 15.25
   \<and> (0 :: real) < 15.25
   \<and> calculate_highlight_score (with_dialogue (sample_scene 1 0 15.25) [] 0) = Inr (fl 29.77)
   \<and> py_round
       (fadd (fadd (fmul (fl 0.4) (min (fmul (fdiv (fdiv (float_of_nat 0) 15.25) 8) 100) 100))
                   (fmul (fl 0.3) (min (real 0 * 20) 100)))
             (fmul (fl 0.3) (duration_score 15.25))) 2 = fl 29.77"
proof -
  let ?a = "with_dialogue (sample_scene 1 0 10) (replicate 80 CHR ''a'') 3"
  let ?b = "with_dialogue (sample_scene 1 0 15.25) [] 0"
  have da: "duration ?a = Some 10" by (simp add: fsub_def)
  have db: "duration ?b = Some 15.25" by (simp add: fsub_def fl_facts)
  have pa: "(0 :: real) < 10" and pb: "(0 :: real) < 15.25" by simp_all
  have la: "length (dialogue ?a) = 80" "subtitle_count ?a = 3" by simp_all
  have lb: "length (dialogue ?b) = 0" "subtitle_count ?b = 0" by simp_all
  from dialogue_only_score [OF da pa] have
    "calculate_highlight_score ?a =
       Inr (py_round
              (fadd (fadd (fmul (fl 0.4)
                             (min (fmul (fdiv (fdiv (float_of_nat (length (dialogue ?a))) 10) 8)
                                    100) 100))
                          (fmul (fl 0.3) (min (real (subtitle_count ?a) * 20) 100)))
                    (fmul (fl 0.3) (duration_score 10))) 2)"
    by blast
  then have fa: "py_round
       (fadd (fadd (fmul (fl 0.4) (min (fmul (fdiv (fdiv (float_of_nat 80) 10) 8) 100) 100))
                   (fmul (fl 0.3) (min (real 3 * 20) 100)))
             (fmul (fl 0.3) (duration_score 10))) 2 = 88"
    unfolding la score_examples(1) by simp
  from dialogue_only_score [OF db pb] have
    "calculate_highlight_score ?b =
       Inr (py_round
              (fadd (fadd (fmul (fl 0.4)
                             (min (fmul (fdiv (fdiv (float_of_nat (length (dialogue ?b))) 15.25) 8)
                                    100) 100))
                          (fmul (fl 0.3) (min (real (subtitle_count ?b) * 20) 100)))
                    (fmul (fl 0.3) (duration_score 15.25))) 2)"
    by blast
  then have fb: "py_round
       (fadd (fadd (fmul (fl 0.4) (min (fmul (fdiv (fdiv (float_of_nat 0) 15.25) 8) 100) 100))
                   (fmul (fl 0.3) (min (real 0 * 20) 100)))
             (fmul (fl 0.3) (duration_score 15.25))) 2 = fl 29.77"
    unfolding lb score_examples(2) by simp
  from da pa score_examples(1) fa db pb score_examples(2) fb show ?thesis by blast
qed

subsection \<open>The multimodal score\<close>

lemma mf_calculate_highlight_score_formula:
  assumes "duration scene = Some d" and "0 < d"
  shows "mf_calculate_highlight_score scene =
     Inr (fadd (fadd (fadd (fadd
            (fmul (fl 0.3)
               (min (fmul (fdiv (fdiv (float_of_nat (length (fused_dialogue scene))) d) 10) 100)
                  100))
            (fmul (fl 0.25) (fmul (motion_of scene) 100)))
            (fmul (fl 0.2) (min (real (length (faces scene)) * 30) 100)))
            (fmul (fl 0.15) (min (real (length (ocr_texts scene)) * 20) 100)))
            (fmul (fl 0.1) (mf_duration_score d)))"
  using assms
  by (simp add: mf_calculate_highlight_score_def motion_of_def Let_def
      fmul_commute [of _ "fl _"])

lemma mf_duration_score_cases:
  "5 \<le> d \<and> d \<le> 15 \<longrightarrow> mf_duration_score d = 100 \<and> duration_score d = 100"
  "d < 5 \<longrightarrow> mf_duration_score d = fmul (fdiv d 5) 100 \<and> duration_score d = fmul (fdiv d 5) 100"
  "15 < d \<longrightarrow> mf_duration_score d = max 0 (fsub 100 (fmul (fsub d 15) 5))"
  by (simp_all add: mf_duration_score_def duration_score_def)

lemma dialogue_score_divisor:
  "0 < d \<Longrightarrow> dialogue_score n d = min (fmul (fdiv (fdiv (float_of_nat n) d) 8) 100) 100"
  by (simp add: dialogue_score_def Let_def float_of_nat_def fdiv_def fmul_def)

lemma sample_fused_scene_fields:
  "duration sample_fused_scene = Some 20"
  "length (fused_dialogue sample_fused_scene) = 50" "motion_of sample_fused_scene = 0.5"
  "length (faces sample_fused_scene) = 2" "length (ocr_texts sample_fused_scene) = 1"
  by (simp_all add: sample_fused_scene_def sample_scene_def motion_of_def fsub_def
      scene.defs fused_scene.defs)

text \<open>
  Two scores computed step by step. The second one is a scene of 3 seconds with 19
  characters of dialogue and nothing else: the dialogue part is the float just below 19,
  the duration part is the float just above 6, and their float sum is the float just
  below 25, which Python prints as \<^verbatim>\<open>24.999999999999996\<close>.
\<close>

lemma mf_score_examples:
  "mf_calculate_highlight_score sample_fused_scene = Inr 42.5"
  "mf_calculate_highlight_score
     (scene.extend (sample_scene 1 0 3)
        (fused_scene.fields None [] ([] :: nat list) (replicate 19 CHR ''x'')))
     = Inr (25 - 1 / 2 ^ 48)"
  "mf_duration_score 20 = 75" "duration_score 20 = 85"
  by (simp_all add: mf_calculate_highlight_score_def mf_duration_score_def duration_score_def
      sample_fused_scene_def sample_scene_def Let_def float_of_nat_def
      scene.defs fused_scene.defs fadd_def fsub_def fmul_def fdiv_def fl_facts)

text \<open>
  Claim C6. For every fused scene with \<open>duration > 0\<close>, the multimodal score is the
  unrounded sum \<open>0.3 * min(len(dialogue)/duration/10*100, 100) + 0.25 * (motion_score*100)
  + 0.2 * min(face_count*30, 100) + 0.15 * min(ocr_text_count*20, 100)
  + 0.1 * duration_score\<close>, evaluated from left to right in float arithmetic. Its duration
  score has the breakpoints 5 and 15 of the dialogue-only one (the two agree up to 15
  seconds) and falls by 5 per second above 15. Its dialogue divisor is 10, that of the
  dialogue-only \<open>dialogue_score\<close> is 8.
\<close>

theorem multimodal_score:
  assumes "duration scene = Some d" and "0 < d"
  shows "mf_calculate_highlight_score scene =
           Inr (fadd (fadd (fadd (fadd
                  (fmul (fl 0.3)
                     (min (fmul (fdiv (fdiv (float_of_nat (length (fused_dialogue scene))) d) 10)
                            100) 100))
                  (fmul (fl 0.25) (fmul (motion_of scene) 100)))
                  (fmul (fl 0.2) (min (real (length (faces scene)) * 30) 100)))
                  (fmul (fl 0.15) (min (real (length (ocr_texts scene)) * 20) 100)))
                  (fmul (fl 0.1) (mf_duration_score d)))
         \<and> (5 \<le> d \<and> d \<le> 15 \<longrightarrow> mf_duration_score d = 100 \<and> duration_score d = 100)
         \<and> (d < 5 \<longrightarrow> mf_duration_score d = fmul (fdiv d 5) 100
                       \<and> duration_score d = fmul (fdiv d 5) 100)
         \<and> (15 < d \<longrightarrow> mf_duration_score d = max 0 (fsub 100 (fmul (fsub d 15) 5)))
         \<and> dialogue_score n d = min (fmul (fdiv (fdiv (float_of_nat n) d) 8) 100) 100"
  using mf_calculate_highlight_score_formula [OF assms] mf_duration_score_cases [of d]
    dialogue_score_divisor [OF assms(2), of n]
  by blast

theorem multimodal_score_witness:
  "duration sample_fused_scene = Some 20 \<and> (0 :: real) < 20
   \<and> mf_calculate_highlight_score sample_fused_scene = Inr 42.5
   \<and> fadd (fadd (fadd (fadd
        (fmul (fl 0.3) (min (fmul (fdiv (fdiv (float_of_nat 50) 20) 10) 100) 100))
        (fmul (fl 0.25) (fmul 0.5 100)))
        (fmul (fl 0.2) (min (real 2 * 30) 100)))
        (fmul (fl 0.15) (min (real 1 * 20) 100)))
        (fmul (fl 0.1) (mf_duration_score 20)) = 42.5
   \<and> mf_duration_score 20 = 75 \<and> duration_score 20 = 85
   \<and> duration (scene.extend (sample_scene 1 0 3)
        (fused_scene.fields None [] ([] :: nat list) (replicate 19 CHR ''x''))) = Some 3
   \<and> (0 :: real) < 3
   \<and> mf_calculate_highlight_score
        (scene.extend (sample_scene 1 0 3)
           (fused_scene.fields None [] ([] :: nat list) (replicate 19 CHR ''x'')))
        = Inr (25 - 1 / 2 ^ 48)
   \<and> fadd (fadd (fadd (fadd
        (fmul (fl 0.3) (min (fmul (fdiv (fdiv (float_of_nat 19) 3) 10) 100) 100))
        (fmul (fl 0.25) (fmul 0 100)))
        (fmul (fl 0.2) (min (real 0 * 30) 100)))
        (fmul (fl 0.15) (min (real 0 * 20) 100)))
        (fmul (fl 0.1) (mf_duration_score 3)) = 25 - 1 / 2 ^ 48"
proof -
  let ?b = "scene.extend (sample_scene 1 0 3)
        (fused_scene.fields None [] ([] :: nat list) (replicate 19 CHR ''x''))"
  note a = sample_fused_scene_fields
  have pa: "(0 :: real) < 20" and pb: "(0 :: real) < 3" by simp_all
  have db: "duration ?b = Some 3"
    by (simp add: sample_scene_def fsub_def scene.defs fused_scene.defs)
  have b: "length (fused_dialogue ?b) = 19" "motion_of ?b = 0"
    "length (faces ?b) = 0" "length (ocr_texts ?b) = 0"
    by (simp_all add: sample_scene_def motion_of_def scene.defs fused_scene.defs)
  from multimodal_score [OF a(1) pa, of 0] have
    "mf_calculate_highlight_score sample_fused_scene =
       Inr (fadd (fadd (fadd (fadd
              (fmul (fl 0.3)
                 (min (fmul (fdiv (fdiv (float_of_nat (length (fused_dialogue sample_fused_scene)))
                                20) 10) 100) 100))
              (fmul (fl 0.25) (fmul (motion_of sample_fused_scene) 100)))
              (fmul (fl 0.2) (min (real (length (faces sample_fused_scene)) * 30) 100)))
              (fmul (fl 0.15) (min (real (length (ocr_texts sample_fused_scene)) * 20) 100)))
              (fmul (fl 0.1) (mf_duration_score 20)))"
    by blast
  then have fa: "fadd (fadd (fadd (fadd
        (fmul (fl 0.3) (min (fmul (fdiv (fdiv (float_of_nat 50) 20) 10) 100) 100))
        (fmul (fl 0.25) (fmul 0.5 100)))
        (fmul (fl 0.2) (min (real 2 * 30) 100)))
        (fmul (fl 0.15) (min (real 1 * 20) 100)))
        (fmul (fl 0.1) (mf_duration_score 20)) = 42.5"
    unfolding a mf_score_examples(1) by simp
  from multimodal_score [OF db pb, of 0] have
    "mf_calculate_highlight_score ?b =
       Inr (fadd (fadd (fadd (fadd
              (fmul (fl 0.3)
                 (min (fmul (fdiv (fdiv (float_of_nat (length (fused_dialogue ?b))) 3) 10) 100)
                    100))
              (fmul (fl 0.25) (fmul (motion_of ?b) 100)))
              (fmul (fl 0.2) (min (real (length (faces ?b)) * 30) 100)))
              (fmul (fl 0.15) (min (real (length (ocr_texts ?b)) * 20) 100)))
              (fmul (fl 0.1) (mf_duration_score 3)))"
    by blast
  then have fb: "fadd (fadd (fadd (fadd
        (fmul (fl 0.3) (min (fmul (fdiv (fdiv (float_of_nat 19) 3) 10) 100) 100))
        (fmul (fl 0.25) (fmul 0 100)))
        (fmul (fl 0.2) (min (real 0 * 30) 100)))
        (fmul (fl 0.15) (min (real 0 * 20) 100)))
        (fmul (fl 0.1) (mf_duration_score 3)) = 25 - 1 / 2 ^ 48"
    unfolding b mf_score_examples(2) by simp
  from a(1) pa mf_score_examples(1) fa mf_score_examples(3,4) db pb mf_score_examples(2) fb
  show ?thesis by blast
qed

section \<open>Highlight selection\<close>

subsection \<open>Enrichment\<close>

lemma enrichment_fails_iff: "enrichment_fails r subs = (\<not> enrichable r)"
  by (auto simp: enrichment_fails_def enrichable_def add_dialogue_to_scene_def
      calculate_highlight_score_def Let_def scene.defs dialogue_scene.defs
      split: option.splits sum.splits)

text \<open>A scene on which the loop body raises leaves no trace in the enriched list.\<close>

lemma enrich_scenes_filter:
  "enrich_scenes scenes subs =
     enrich_scenes (filter (\<lambda>r. \<not> enrichment_fails r subs) scenes) subs"
  by (induction scenes) (auto simp: enrichment_fails_def split: sum.splits)

text \<open>Stripped of the added keys, the enriched scenes are the enrichable input scenes.\<close>

lemma truncate_enrich_scenes:
  "map scene.truncate (enrich_scenes scenes subs) = filter enrichable scenes"
proof (induction scenes)
  case Nil
  show ?case by simp
next
  case (Cons r scenes)
  show ?case
  proof (cases "enrichable r")
    case True
    then obtain s e d where
      k: "start_time r = Some s" "end_time r = Some e" "duration r = Some d"
      by (auto simp: enrichable_def)
    then show ?thesis using Cons True
      by (simp add: add_dialogue_to_scene_def calculate_highlight_score_def Let_def
          scene.defs dialogue_scene.defs scored_scene.defs)
  next
    case False
    then have "enrichment_fails r subs" by (simp add: enrichment_fails_iff)
    then show ?thesis using Cons False
      by (auto simp: enrichment_fails_def split: sum.splits)
  qed
qed

lemma truncate_fields [simp]:
  "scene_id (scene.truncate s) = scene_id s"
  "start_time (scene.truncate s) = start_time s"
  "end_time (scene.truncate s) = end_time s"
  "duration (scene.truncate s) = duration s"
  by (simp_all add: scene.defs)

lemma enriched_from_input:
  assumes "s \<in> set (enrich_scenes scenes subs)"
  shows "scene.truncate s \<in> set scenes \<and> enrichable (scene.truncate s)"
proof -
  from assms have "scene.truncate s \<in> set (map scene.truncate (enrich_scenes scenes subs))"
    by simp
  then show ?thesis by (simp add: truncate_enrich_scenes)
qed

lemma enriched_keys:
  assumes "s \<in> set (enrich_scenes scenes subs)"
  shows "start_time s \<noteq> None \<and> end_time s \<noteq> None \<and> duration s \<noteq> None"
  using enriched_from_input [OF assms] by (simp add: enrichable_def)

subsection \<open>The greedy loop\<close>

lemma greedy_select_Cons:
  assumes "duration s = Some d"
  shows "greedy_select (s # rest) T sel tot =
     (if fadd tot d \<le> T
      then (if \<not> debug_message_keys s then Inl KeyError
            else if fmul T (fl 0.95) \<le> fadd tot d then Inr (sel @ [s], fadd tot d)
            else greedy_select rest T (sel @ [s]) (fadd tot d))
      else (if fmul T (fl 0.95) \<le> tot then Inr (sel, tot)
            else greedy_select rest T sel tot))"
  using assms by simp

lemma greedy_select_no_duration:
  "duration s = None \<Longrightarrow> greedy_select (s # rest) T sel tot = Inl KeyError"
  by simp

declare greedy_select.simps(2) [simp del]

text \<open>
  What a normal return of the loop tells: the scenes added are a subsequence of the scanned
  list, the total is the float sum of their durations in that order, and after each
  acceptance the running total was within the target.
\<close>

lemma greedy_select_sound:
  assumes "greedy_select xs T sel tot = Inr (sel', tot')"
  shows "\<exists>acc. sel' = sel @ acc \<and> subseq acc xs
           \<and> tot' = foldl (\<lambda>t s. fadd t (duration_of s)) tot acc
           \<and> (\<forall>n. 0 < n \<and> n \<le> length acc \<longrightarrow>
                  foldl (\<lambda>t s. fadd t (duration_of s)) tot (take n acc) \<le> T)
           \<and> (\<forall>s\<in>set acc. duration s \<noteq> None \<and> debug_message_keys s)"
  using assms
proof (induction xs arbitrary: sel tot)
  case Nil
  then show ?case by simp
next
  case (Cons s rest)
  let ?f = "\<lambda>t s. fadd t (duration_of s)"
  from Cons.prems obtain d where d: "duration s = Some d"
    by (cases "duration s") (simp_all add: greedy_select_no_duration)
  note step = greedy_select_Cons [OF d, of rest T sel tot]
  have dur: "duration_of s = d" using d by (simp add: duration_of_def)
  show ?case
  proof (cases "fadd tot d \<le> T")
    case fits: True
    with Cons.prems step have keys: "debug_message_keys s"
      by (auto split: if_splits)
    show ?thesis
    proof (cases "fmul T (fl 0.95) \<le> fadd tot d")
      case True
      with fits keys step Cons.prems have "sel' = sel @ [s]" "tot' = fadd tot d" by simp_all
      then have "sel' = sel @ [s] \<and> subseq [s] (s # rest)
           \<and> tot' = foldl ?f tot [s]
           \<and> (\<forall>n. 0 < n \<and> n \<le> length [s] \<longrightarrow> foldl ?f tot (take n [s]) \<le> T)
           \<and> (\<forall>x\<in>set [s]. duration x \<noteq> None \<and> debug_message_keys x)"
        using fits keys d dur by auto
      then show ?thesis by blast
    next
      case False
      with fits keys step Cons.prems
      have "greedy_select rest T (sel @ [s]) (fadd tot d) = Inr (sel', tot')" by simp
      from Cons.IH [OF this] obtain acc where
        a: "sel' = (sel @ [s]) @ acc" "subseq acc rest"
           "tot' = foldl ?f (fadd tot d) acc"
           "\<forall>n. 0 < n \<and> n \<le> length acc \<longrightarrow> foldl ?f (fadd tot d) (take n acc) \<le> T"
           "\<forall>x\<in>set acc. duration x \<noteq> None \<and> debug_message_keys x"
        by blast
      have 1: "sel' = sel @ (s # acc)" using a(1) by simp
      have 2: "subseq (s # acc) (s # rest)" using a(2) by simp
      have 3: "tot' = foldl ?f tot (s # acc)" using a(3) dur by simp
      have 5: "foldl ?f tot (take n (s # acc)) \<le> T"
        if "0 < n" "n \<le> length (s # acc)" for n
      proof (cases n)
        case 0
        with that show ?thesis by simp
      next
        case (Suc m)
        show ?thesis
        proof (cases m)
          case 0
          with Suc fits dur show ?thesis by simp
        next
          case (Suc k)
          with \<open>n = Suc m\<close> that a(4) have "foldl ?f (fadd tot d) (take m acc) \<le> T" by simp
          with \<open>n = Suc m\<close> dur show ?thesis by simp
        qed
      qed
      have 6: "\<forall>x\<in>set (s # acc). duration x \<noteq> None \<and> debug_message_keys x"
        using a(5) keys d by simp
      from 1 2 3 5 6 show ?thesis by blast
    qed
  next
    case nofit: False
    show ?thesis
    proof (cases "fmul T (fl 0.95) \<le> tot")
      case True
      with nofit step Cons.prems have "sel' = sel" "tot' = tot" by simp_all
      then have "sel' = sel @ [] \<and> subseq [] (s # rest)
           \<and> tot' = foldl ?f tot ([] :: scored_scene list)
           \<and> (\<forall>n. 0 < n \<and> n \<le> length ([] :: scored_scene list) \<longrightarrow>
                  foldl ?f tot (take n ([] :: scored_scene list)) \<le> T)
           \<and> (\<forall>x\<in>set ([] :: scored_scene list). duration x \<noteq> None \<and> debug_message_keys x)"
        by simp
      then show ?thesis by blast
    next
      case False
      with nofit step Cons.prems
      have "greedy_select rest T sel tot = Inr (sel', tot')" by simp
      from Cons.IH [OF this] obtain acc where
        a: "sel' = sel @ acc" "subseq acc rest"
           "tot' = foldl ?f tot acc"
           "\<forall>n. 0 < n \<and> n \<le> length acc \<longrightarrow> foldl ?f tot (take n acc) \<le> T"
           "\<forall>x\<in>set acc. duration x \<noteq> None \<and> debug_message_keys x"
        by blast
      from a(2) have "subseq acc (s # rest)" by (rule list_emb_Cons)
      with a show ?thesis by blast
    qed
  qed
qed

text \<open>
  With no negative duration around, no accepted scene is longer than the target: the
  float sum of a non-negative total and a non-negative float is not below that float.
\<close>

lemma greedy_select_each_fits:
  assumes "greedy_select xs T sel tot = Inr (sel', tot')"
      and "0 \<le> tot"
      and "\<forall>s\<in>set xs. \<forall>d. duration s = Some d \<longrightarrow> 0 \<le> d \<and> is_double d"
      and "\<forall>s\<in>set sel. duration_of s \<le> T"
  shows "\<forall>s\<in>set sel'. duration_of s \<le> T"
  using assms
proof (induction xs arbitrary: sel tot)
  case Nil
  then show ?case by simp
next
  case (Cons s rest)
  from Cons.prems(1) obtain d where d: "duration s = Some d"
    by (cases "duration s") (simp_all add: greedy_select_no_duration)
  note step = greedy_select_Cons [OF d, of rest T sel tot]
  have dur: "duration_of s = d" using d by (simp add: duration_of_def)
  from Cons.prems(3) d have d0: "0 \<le> d" and dd: "is_double d" by simp_all
  from Cons.prems(3)
  have rest: "\<forall>s\<in>set rest. \<forall>d. duration s = Some d \<longrightarrow> 0 \<le> d \<and> is_double d"
    by simp
  show ?case
  proof (cases "fadd tot d \<le> T")
    case fits: True
    with Cons.prems(1) step have keys: "debug_message_keys s"
      by (auto split: if_splits)
    from fadd_ge_right [OF Cons.prems(2) d0 dd] fits have "d \<le> T" by simp
    with Cons.prems(4) dur have sel1: "\<forall>x\<in>set (sel @ [s]). duration_of x \<le> T" by simp
    show ?thesis
    proof (cases "fmul T (fl 0.95) \<le> fadd tot d")
      case True
      with fits keys step Cons.prems(1) have "sel' = sel @ [s]" by simp
      with sel1 show ?thesis by simp
    next
      case False
      with fits keys step Cons.prems(1)
      have g: "greedy_select rest T (sel @ [s]) (fadd tot d) = Inr (sel', tot')" by simp
      from Cons.prems(2) d0 have "0 \<le> fadd tot d" by (rule fadd_nonneg)
      from Cons.IH [OF g this rest sel1] show ?thesis .
    qed
  next
    case nofit: False
    show ?thesis
    proof (cases "fmul T (fl 0.95) \<le> tot")
      case True
      with nofit step Cons.prems(1) have "sel' = sel" by simp
      with Cons.prems(4) show ?thesis by simp
    next
      case False
      with nofit step Cons.prems(1)
      have g: "greedy_select rest T sel tot = Inr (sel', tot')" by simp
      from Cons.IH [OF g Cons.prems(2) rest Cons.prems(4)] show ?thesis .
    qed
  qed
qed

lemma greedy_select_nothing_fits:
  assumes "\<forall>s\<in>set xs. \<exists>d. duration s = Some d \<and> T < fadd tot d"
  shows "greedy_select xs T sel tot = Inr (sel, tot)"
  using assms
proof (induction xs)
  case Nil
  show ?case by simp
next
  case (Cons s rest)
  then obtain d where d: "duration s = Some d" "T < fadd tot d" by auto
  from Cons have "greedy_select rest T sel tot = Inr (sel, tot)" by simp
  with d show ?case by (simp add: greedy_select_Cons [OF d(1)])
qed

lemma greedy_select_total:
  assumes "\<forall>s\<in>set xs. duration s \<noteq> None \<and> debug_message_keys s"
  shows "\<exists>r. greedy_select xs T sel tot = Inr r"
  using assms
proof (induction xs arbitrary: sel tot)
  case Nil
  show ?case by simp
next
  case (Cons s rest)
  then obtain d where d: "duration s = Some d" and k: "debug_message_keys s" by auto
  from Cons have ih: "\<And>sel tot. \<exists>r. greedy_select rest T sel tot = Inr r" by simp
  show ?case using ih k by (simp add: greedy_select_Cons [OF d])
qed

subsection \<open>Chronological order and identifiers\<close>


lemma assign_selected_ids_map:
  assumes "\<And>s v. f (s\<lparr>selected_id := v\<rparr>) = f s"
  shows "map f (assign_selected_ids i xs) = map f xs"
  by (induction xs arbitrary: i) (simp_all add: assms)

lemma length_assign_selected_ids [simp]: "length (assign_selected_ids i xs) = length xs"
  by (induction xs arbitrary: i) simp_all

lemma start_of_assign [simp]:
  "map start_of (assign_selected_ids i xs) = map start_of xs"
  by (rule assign_selected_ids_map) (simp add: start_of_def)

lemma duration_of_assign [simp]:
  "map duration_of (assign_selected_ids i xs) = map duration_of xs"
  by (rule assign_selected_ids_map) (simp add: duration_of_def)

lemma sort_by_start_time_Inr:
  assumes "\<forall>s\<in>set xs. start_time s \<noteq> None"
  shows "sort_by_start_time xs = Inr (sort_key start_of xs)"
proof -
  have "start_of = (\<lambda>x :: scored_scene. the (start_time x))"
    by (rule ext) (simp add: start_of_def)
  with assms show ?thesis by (simp add: sort_by_start_time_def list_all_iff)
qed

lemma sort_by_start_time_Inl:
  assumes "\<not> (\<forall>s\<in>set xs. start_time s \<noteq> None)"
  shows "sort_by_start_time xs = Inl KeyError"
  using assms by (simp add: sort_by_start_time_def list_all_iff)

subsection \<open>The whole selection\<close>

lemma select_highlights_scan:
  "select_highlights scenes subs T =
     (case greedy_select (scan_order scenes subs) T [] 0 of
        Inl e \<Rightarrow> Inl e
      | Inr (acc, tot) \<Rightarrow>
          (case sort_by_start_time acc of
             Inl e \<Rightarrow> Inl e
           | Inr chron \<Rightarrow> Inr (assign_selected_ids 1 chron)))"
proof (cases "enrich_scenes scenes subs = []")
  case True
  then show ?thesis
    by (simp add: select_highlights_def scan_order_def sort_by_start_time_def)
next
  case False
  then have "scenes \<noteq> []" by auto
  with False show ?thesis
    by (simp add: select_highlights_def scan_order_def Let_def)
qed

lemma scan_order_set [simp]: "set (scan_order scenes subs) = set (enrich_scenes scenes subs)"
  by (simp add: scan_order_def)

lemma subseq_set_subset: "subseq xs ys \<Longrightarrow> set xs \<subseteq> set ys"
  by (induction rule: list_emb.induct) auto


text \<open>A normal return of \<open>select_highlights\<close>, taken apart.\<close>

lemma select_highlights_Inr:
  assumes "select_highlights scenes subs T = Inr sel"
  shows "\<exists>acc tot. greedy_select (scan_order scenes subs) T [] 0 = Inr (acc, tot)
           \<and> subseq acc (scan_order scenes subs)
           \<and> tot = running_total acc
           \<and> (\<forall>n. 0 < n \<and> n \<le> length acc \<longrightarrow> running_total (take n acc) \<le> T)
           \<and> sel = assign_selected_ids 1 (sort_key start_of acc)"
proof -
  from assms obtain acc tot where
    g: "greedy_select (scan_order scenes subs) T [] 0 = Inr (acc, tot)"
    by (auto simp: select_highlights_scan split: sum.splits)
  from greedy_select_sound [OF g] have
    a: "subseq acc (scan_order scenes subs)" "tot = running_total acc"
       "\<forall>n. 0 < n \<and> n \<le> length acc \<longrightarrow> running_total (take n acc) \<le> T"
    by (auto simp: running_total_def)
  from a(1) have "set acc \<subseteq> set (enrich_scenes scenes subs)"
    using subseq_set_subset by fastforce
  then have "\<forall>s\<in>set acc. start_time s \<noteq> None"
    using enriched_keys by blast
  then have "sort_by_start_time acc = Inr (sort_key start_of acc)"
    by (rule sort_by_start_time_Inr)
  with assms g have "sel = assign_selected_ids 1 (sort_key start_of acc)"
    by (simp add: select_highlights_scan)
  with g a show ?thesis by blast
qed

lemma assign_selected_ids_elem:
  assumes "s \<in> set (assign_selected_ids i xs)"
  shows "\<exists>a\<in>set xs. \<exists>v. s = a\<lparr>selected_id := v\<rparr>"
  using assms by (induction xs arbitrary: i) auto

lemma select_highlights_running_total:
  assumes "select_highlights scenes subs T = Inr sel"
  shows "\<exists>acc. subseq acc (scan_order scenes subs)
           \<and> sel = assign_selected_ids 1 (sort_key start_of acc)
           \<and> (\<forall>n. 0 < n \<and> n \<le> length acc \<longrightarrow> running_total (take n acc) \<le> T)"
  using select_highlights_Inr [OF assms] by blast

lemma select_highlights_from_input:
  assumes "select_highlights scenes subs T = Inr sel" and "s \<in> set sel"
  shows "\<exists>r\<in>set scenes. scene_id s = scene_id r \<and> start_time s = start_time r
           \<and> end_time s = end_time r \<and> duration s = duration r \<and> duration r \<noteq> None"
proof -
  from select_highlights_Inr [OF assms(1)] obtain acc where
    a: "subseq acc (scan_order scenes subs)"
       "sel = assign_selected_ids 1 (sort_key start_of acc)"
    by blast
  from assms(2) a(2) obtain x v where x: "x \<in> set acc" "s = x\<lparr>selected_id := v\<rparr>"
    using assign_selected_ids_elem by fastforce
  from x(1) a(1) have e: "x \<in> set (enrich_scenes scenes subs)"
    using subseq_set_subset by fastforce
  from enriched_from_input [OF e] enriched_keys [OF e] x(2)
  have "scene.truncate x \<in> set scenes" "scene_id s = scene_id (scene.truncate x)"
    "start_time s = start_time (scene.truncate x)" "end_time s = end_time (scene.truncate x)"
    "duration s = duration (scene.truncate x)" "duration (scene.truncate x) \<noteq> None"
    by simp_all
  then show ?thesis by blast
qed

lemma select_highlights_each_fits:
  assumes "select_highlights scenes subs T = Inr sel"
      and "\<forall>r\<in>set scenes. \<forall>d. duration r = Some d \<longrightarrow> 0 \<le> d \<and> is_double d"
  shows "\<forall>s\<in>set sel. duration_of s \<le> T"
proof -
  from select_highlights_Inr [OF assms(1)] obtain acc tot where
    g: "greedy_select (scan_order scenes subs) T [] 0 = Inr (acc, tot)"
    and sel: "sel = assign_selected_ids 1 (sort_key start_of acc)"
    by blast
  have nn: "\<forall>s\<in>set (scan_order scenes subs). \<forall>d. duration s = Some d \<longrightarrow> 0 \<le> d \<and> is_double d"
  proof (intro ballI allI impI)
    fix s d
    assume "s \<in> set (scan_order scenes subs)" and d: "duration s = Some d"
    then have "scene.truncate s \<in> set scenes"
      using enriched_from_input by simp
    with assms(2) d show "0 \<le> d \<and> is_double d" by fastforce
  qed
  have "\<forall>s\<in>set acc. duration_of s \<le> T"
    by (rule greedy_select_each_fits [OF g _ nn]) simp_all
  then have "\<forall>d\<in>set (map duration_of (sort_key start_of acc)). d \<le> T" by simp
  then have "\<forall>d\<in>set (map duration_of sel). d \<le> T" by (simp add: sel)
  then show ?thesis by simp
qed

lemma select_highlights_nothing_fits:
  assumes "\<forall>r\<in>set scenes. \<forall>d. duration r = Some d \<longrightarrow> is_double d \<and> T < d"
  shows "select_highlights scenes subs T = Inr []"
proof -
  have "\<forall>s\<in>set (scan_order scenes subs). \<exists>d. duration s = Some d \<and> T < fadd 0 d"
  proof
    fix s
    assume s: "s \<in> set (scan_order scenes subs)"
    then have e: "s \<in> set (enrich_scenes scenes subs)" by simp
    from enriched_keys [OF e] obtain d where d: "duration s = Some d" by auto
    from enriched_from_input [OF e] have "scene.truncate s \<in> set scenes" by simp
    with assms d have "is_double d \<and> T < d" by fastforce
    with d show "\<exists>d. duration s = Some d \<and> T < fadd 0 d" by (simp add: fadd_0_left)
  qed
  then have "greedy_select (scan_order scenes subs) T [] 0 = Inr ([], 0)"
    by (rule greedy_select_nothing_fits)
  then show ?thesis
    by (simp add: select_highlights_scan sort_by_start_time_def)
qed

lemma select_highlights_empty: "select_highlights [] subs T = Inr []"
  by (simp add: select_highlights_def)






lemma start_of_truncate [simp]: "start_of (scene.truncate s) = start_of s"
  by (simp add: start_of_def)



lemma scan_order_skips:
  "scan_order scenes subs = scan_order (filter (\<lambda>r. \<not> enrichment_fails r subs) scenes) subs"
  unfolding scan_order_def by (subst enrich_scenes_filter) (rule refl)

lemma select_highlights_skips:
  "select_highlights scenes subs T =
     select_highlights (filter (\<lambda>r. \<not> enrichment_fails r subs) scenes) subs T"
  unfolding select_highlights_scan by (subst scan_order_skips) (rule refl)

lemma select_highlights_skips_one:
  assumes "enrichment_fails r subs"
  shows "select_highlights (pre @ r # post) subs T = select_highlights (pre @ post) subs T"
proof -
  have "filter (\<lambda>r. \<not> enrichment_fails r subs) (pre @ r # post) =
        filter (\<lambda>r. \<not> enrichment_fails r subs) (pre @ post)"
    using assms by simp
  then show ?thesis
    using select_highlights_skips [of "pre @ r # post" subs T]
      select_highlights_skips [of "pre @ post" subs T]
    by simp
qed

lemma enrichment_fails_keys:
  "enrichment_fails r subs = (start_time r = None \<or> end_time r = None \<or> duration r = None)"
  by (auto simp: enrichment_fails_iff enrichable_def)


text \<open>
  When every scene carries its \<^verbatim>\<open>id\<close>, \<open>select_highlights\<close> returns a selection: the only
  exception that can leave it comes from the log message for an accepted scene.
\<close>

lemma select_highlights_returns:
  assumes "\<forall>r\<in>set scenes. scene_id r \<noteq> None"
  shows "\<exists>sel. select_highlights scenes subs T = Inr sel"
proof -
  have "\<forall>s\<in>set (scan_order scenes subs). duration s \<noteq> None \<and> debug_message_keys s"
  proof
    fix s
    assume "s \<in> set (scan_order scenes subs)"
    then have e: "s \<in> set (enrich_scenes scenes subs)" by simp
    from enriched_from_input [OF e] assms have "scene_id s \<noteq> None" by fastforce
    with enriched_keys [OF e] show "duration s \<noteq> None \<and> debug_message_keys s"
      by (simp add: debug_message_keys_def)
  qed
  from greedy_select_total [OF this, of T "[]" 0] obtain acc tot where
    g: "greedy_select (scan_order scenes subs) T [] 0 = Inr (acc, tot)"
    by force
  from greedy_select_sound [OF g] have "subseq acc (scan_order scenes subs)" by auto
  then have "set acc \<subseteq> set (enrich_scenes scenes subs)"
    using subseq_set_subset by fastforce
  then have "\<forall>s\<in>set acc. start_time s \<noteq> None"
    using enriched_keys by blast
  then have "sort_by_start_time acc = Inr (sort_key start_of acc)"
    by (rule sort_by_start_time_Inr)
  with g show ?thesis by (simp add: select_highlights_scan)
qed

subsection \<open>Worked examples\<close>

lemma with_score_fields [simp]:
  "highlight_score (with_score s d n x) = x"
  "dialogue (with_score s d n x) = d"
  "subtitle_count (with_score s d n x) = n"
  "duration (with_score s d n x) = duration s"
  "start_time (with_score s d n x) = start_time s"
  "end_time (with_score s d n x) = end_time s"
  "scene_id (with_score s d n x) = scene_id s"
  "selected_id (with_score s d n x) = selected_id s"
  by (simp_all add: with_score_def with_dialogue_def scene.defs dialogue_scene.defs
      scored_scene.defs)

lemma with_score_keys [simp]:
  "debug_message_keys (with_score s d n x) = debug_message_keys s"
  by (simp add: debug_message_keys_def)

lemma calculate_highlight_score_of:
  assumes "duration scene = Some d"
  shows "calculate_highlight_score scene =
           Inr (highlight_score_of (length (dialogue scene)) (subtitle_count scene) d)"
  using assms by (simp add: calculate_highlight_score_def highlight_score_of_def Let_def)

lemma enrich_scenes_Cons:
  assumes "start_time r = Some s" and "end_time r = Some e" and "duration r = Some d"
  shows "enrich_scenes (r # rs) subs =
     with_score r (join '' '' (map sub_text (filter (subtitle_in_scene s e) subs)))
       (length (filter (subtitle_in_scene s e) subs))
       (highlight_score_of
          (length (join '' '' (map sub_text (filter (subtitle_in_scene s e) subs))))
          (length (filter (subtitle_in_scene s e) subs)) d)
       # enrich_scenes rs subs"
  using assms
  by (simp add: add_dialogue_to_scene_def calculate_highlight_score_def highlight_score_of_def
      Let_def with_score_def with_dialogue_def scene.defs dialogue_scene.defs)

lemma enrich_scenes_Cons_broken:
  assumes "start_time r = None \<or> end_time r = None \<or> duration r = None"
  shows "enrich_scenes (r # rs) subs = enrich_scenes rs subs"
  using assms
  by (auto simp: add_dialogue_to_scene_def calculate_highlight_score_def Let_def
      scene.defs dialogue_scene.defs split: option.splits)

declare enrich_scenes.simps(2) [simp del]

text \<open>The contributions to the scores of the examples, and the scores.\<close>

lemma contribution_examples:
  "fmul (dialogue_score 80 8) (fl 0.4) = 40" "fmul (subtitle_score 4) (fl 0.3) = 24"
  "fmul (duration_score 8) (fl 0.3) = 30" "fmul (dialogue_score 0 12) (fl 0.4) = 0"
  "fmul (subtitle_score 0) (fl 0.3) = 0" "fmul (duration_score 12) (fl 0.3) = 30"
  by (simp_all add: dialogue_score_def subtitle_score_def duration_score_def Let_def
      float_of_nat_def fdiv_def fmul_def fl_facts)

lemma score_of_examples:
  "highlight_score_of 80 4 (fsub 8 0) = 94" "highlight_score_of 0 0 (fsub 20 8) = 30"
  "highlight_score_of 0 0 (fsub 12 0) = 30" "highlight_score_of 0 0 (fsub 20 12) = 30"
  "highlight_score_of 80 4 (fsub 28 20) = 94"
  by (simp_all add: highlight_score_of_def dialogue_score_def subtitle_score_def
      duration_score_def Let_def float_of_nat_def py_round_def round_half_even_def
      fadd_def fsub_def fmul_def fdiv_def fl_facts)

text \<open>The stop thresholds \<^verbatim>\<open>target_duration * 0.95\<close> of the examples.\<close>

lemma threshold_examples:
  "fmul 8 (fl 0.95) \<le> 8" "\<not> fmul 16 (fl 0.95) \<le> 8" "fmul 16 (fl 0.95) \<le> 16"
  "\<not> fmul 100 (fl 0.95) \<le> 28" "\<not> fmul 16 (fl 0.95) \<le> 10"
  "\<not> fmul 100 (fl 0.95) \<le> 12" "\<not> fmul 100 (fl 0.95) \<le> 20"
  "\<not> fmul 100 (fl 0.95) \<le> 8"
  by (simp_all add: fmul_def fl_facts)

lemma scenario_dialogue_length: "length scenario_dialogue = 80"
  by (simp add: scenario_dialogue_def scenario_subtitles_def sample_subtitle_def)

lemma late_dialogue_length: "length late_dialogue = 80"
  by (simp add: late_dialogue_def late_subtitles_def sample_subtitle_def)

lemma scenario_filter:
  "filter (subtitle_in_scene 0 8) scenario_subtitles = scenario_subtitles"
  "filter (subtitle_in_scene 8 20) scenario_subtitles = []"
  "length scenario_subtitles = 4"
  by (simp_all add: scenario_subtitles_def sample_subtitle_def subtitle_in_scene_def)

lemma scenario_enriched:
  "enrich_scenes scenario_scenes scenario_subtitles =
     [with_score (sample_scene 1 0 8) scenario_dialogue 4 94,
      with_score (sample_scene 2 8 20) [] 0 30]"
  unfolding scenario_scenes_def
  by (simp only: enrich_scenes_Cons [OF sample_scene_fields(2,3,4)] scenario_filter
      scenario_dialogue_def [symmetric] scenario_dialogue_length score_of_examples
      enrich_scenes.simps(1) list.map join.simps list.size)

lemma sample_durations [simp]:
  "fsub 8 0 = 8" "fsub 20 8 = 12" "fsub 12 0 = 12" "fsub 20 12 = 8" "fsub 28 20 = 8"
  by (simp_all add: fsub_def)

lemma scenario_selected:
  "select_highlights scenario_scenes scenario_subtitles 8 =
     Inr [(with_score (sample_scene 1 0 8) scenario_dialogue 4 94)\<lparr>selected_id := Some 1\<rparr>]"
proof -
  have o: "scan_order scenario_scenes scenario_subtitles =
      [with_score (sample_scene 1 0 8) scenario_dialogue 4 94,
       with_score (sample_scene 2 8 20) [] 0 30]"
    by (simp add: scan_order_def scenario_enriched)
  have g: "greedy_select (scan_order scenario_scenes scenario_subtitles) 8 [] 0 =
      Inr ([with_score (sample_scene 1 0 8) scenario_dialogue 4 94], 8)"
    unfolding o using threshold_examples
    by (simp add: greedy_select.simps(2) fadd_def)
  show ?thesis
    by (simp add: select_highlights_scan g sort_by_start_time_def)
qed

lemma late_filter:
  "filter (subtitle_in_scene 0 12) late_subtitles = []"
  "filter (subtitle_in_scene 12 20) late_subtitles = []"
  "filter (subtitle_in_scene 20 28) late_subtitles = late_subtitles"
  "length late_subtitles = 4"
  by (simp_all add: late_subtitles_def sample_subtitle_def subtitle_in_scene_def)

lemma three_enriched:
  "enrich_scenes three_scenes late_subtitles =
     [with_score (sample_scene 1 0 12) [] 0 30,
      with_score (sample_scene 2 12 20) [] 0 30,
      with_score (sample_scene 3 20 28) late_dialogue 4 94]"
  unfolding three_scenes_def
  by (simp only: enrich_scenes_Cons [OF sample_scene_fields(2,3,4)] late_filter
      late_dialogue_def [symmetric] late_dialogue_length score_of_examples
      enrich_scenes.simps(1) list.map join.simps list.size)

lemma three_order:
  "scan_order three_scenes late_subtitles =
     [with_score (sample_scene 3 20 28) late_dialogue 4 94,
      with_score (sample_scene 1 0 12) [] 0 30,
      with_score (sample_scene 2 12 20) [] 0 30]"
  by (simp add: scan_order_def three_enriched)

text \<open>
  With a target of 16 seconds the scan passes over the first scene of 12 seconds, which
  does not fit after the 8 seconds accepted, and stops after the next one. With a target
  of 100 seconds it accepts the three scenes and ends with the list.
\<close>

lemma three_greedy:
  "greedy_select (scan_order three_scenes late_subtitles) 16 [] 0 =
     Inr ([with_score (sample_scene 3 20 28) late_dialogue 4 94,
           with_score (sample_scene 2 12 20) [] 0 30], 16)"
  unfolding three_order using threshold_examples
  by (simp add: greedy_select.simps(2) fadd_def)


lemma three_selected:
  "select_highlights three_scenes late_subtitles 16 =
     Inr [(with_score (sample_scene 2 12 20) [] 0 30)\<lparr>selected_id := Some 1\<rparr>,
          (with_score (sample_scene 3 20 28) late_dialogue 4 94)\<lparr>selected_id := Some 2\<rparr>]"
  by (simp add: select_highlights_scan three_greedy sort_by_start_time_def)


lemma broken_selected:
  "select_highlights [broken_scene, sample_scene 2 8 20] [] 100 =
     Inr [(with_score (sample_scene 2 8 20) [] 0 30)\<lparr>selected_id := Some 1\<rparr>]"
proof -
  have b: "duration broken_scene = None" by (simp add: broken_scene_def)
  have e: "enrich_scenes [broken_scene, sample_scene 2 8 20] [] =
      [with_score (sample_scene 2 8 20) [] 0 30]"
    by (simp only: enrich_scenes_Cons_broken [of broken_scene, OF disjI2, OF disjI2, OF b]
        enrich_scenes_Cons [OF sample_scene_fields(2,3,4)] score_of_examples
        enrich_scenes.simps(1) list.map join.simps list.size filter.simps)
  have g: "greedy_select [with_score (sample_scene 2 8 20) [] 0 30] 100 [] 0 =
      Inr ([with_score (sample_scene 2 8 20) [] 0 30], 12)"
    using threshold_examples by (simp add: greedy_select.simps(2) fadd_def)
  show ?thesis
    by (simp add: select_highlights_scan scan_order_def e g sort_by_start_time_def)
qed

text \<open>
  The three scenes with times next to 6, 5 and 11. Each duration is the difference of end
  and start, exactly and as floats. The second and the third scene score 76, the first
  one scores 30, so the scan takes them in the order second, third, first. The running
  total is 5.000000000000001, then 10 (the sum \<open>10 + 2\<^sup>-\<^sup>5\<^sup>0\<close> is rounded down), then 16
  (the sum \<open>16 + 2\<^sup>-\<^sup>4\<^sup>9\<close> is rounded down): every scene fits a target of 16.
\<close>

lemma rounding_fields [simp]:
  "scene_id rounding_first = Some 1" "start_time rounding_first = Some 0"
  "end_time rounding_first = Some (6 + 1 / 2 ^ 49)"
  "duration rounding_first = Some (6 + 1 / 2 ^ 49)"
  "scene_id rounding_second = Some 2" "start_time rounding_second = Some (6 + 3 / 2 ^ 50)"
  "end_time rounding_second = Some (11 + 1 / 2 ^ 48)"
  "duration rounding_second = Some (5 + 1 / 2 ^ 50)"
  "scene_id rounding_third = Some 3" "start_time rounding_third = Some 12"
  "end_time rounding_third = Some 17" "duration rounding_third = Some 5"
  "debug_message_keys rounding_first" "debug_message_keys rounding_second"
  "debug_message_keys rounding_third"
  by (simp_all add: rounding_first_def rounding_second_def rounding_third_def fsub_def
      fl_facts)

lemma rounding_doubles:
  "is_double (6 + 1 / 2 ^ 49)" "is_double (6 + 3 / 2 ^ 50)" "is_double (11 + 1 / 2 ^ 48)"
  "is_double (5 + 1 / 2 ^ 50)"
  by (simp_all add: is_double_def fl_facts)

lemma rounding_detector: "detector_scenes rounding_scenes"
  by (simp add: detector_scenes_def detector_scene_def rounding_scenes_def
      start_of_def end_of_def duration_of_def fsub_def fl_facts)

lemma rounding_filter:
  "join '' '' (map sub_text (filter (subtitle_in_scene 0 (6 + 1 / 2 ^ 49)) rounding_subtitles))
     = []"
  "length (filter (subtitle_in_scene 0 (6 + 1 / 2 ^ 49)) rounding_subtitles) = 0"
  "join '' '' (map sub_text
     (filter (subtitle_in_scene (6 + 3 / 2 ^ 50) (11 + 1 / 2 ^ 48)) rounding_subtitles))
     = replicate 80 CHR ''a''"
  "length (filter (subtitle_in_scene (6 + 3 / 2 ^ 50) (11 + 1 / 2 ^ 48)) rounding_subtitles)
     = 1"
  "join '' '' (map sub_text (filter (subtitle_in_scene 12 17) rounding_subtitles))
     = replicate 80 CHR ''b''"
  "length (filter (subtitle_in_scene 12 17) rounding_subtitles) = 1"
  by (simp_all add: rounding_subtitles_def sample_subtitle_def subtitle_in_scene_def)

lemma rounding_scores:
  "highlight_score_of 0 0 (6 + 1 / 2 ^ 49) = 30"
  "highlight_score_of 80 1 (5 + 1 / 2 ^ 50) = 76"
  "highlight_score_of 80 1 5 = 76"
  by (simp_all add: highlight_score_of_def dialogue_score_def subtitle_score_def
      duration_score_def Let_def float_of_nat_def py_round_def round_half_even_def
      fadd_def fsub_def fmul_def fdiv_def fl_facts)

lemma rounding_enriched:
  "enrich_scenes rounding_scenes rounding_subtitles =
     [with_score rounding_first [] 0 30,
      with_score rounding_second (replicate 80 CHR ''a'') 1 76,
      with_score rounding_third (replicate 80 CHR ''b'') 1 76]"
  unfolding rounding_scenes_def
  by (simp only: enrich_scenes_Cons [OF rounding_fields(2,3,4)]
      enrich_scenes_Cons [OF rounding_fields(6,7,8)]
      enrich_scenes_Cons [OF rounding_fields(10,11,12)]
      rounding_filter rounding_scores length_replicate list.size enrich_scenes.simps(1))

lemma rounding_order:
  "scan_order rounding_scenes rounding_subtitles =
     [with_score rounding_second (replicate 80 CHR ''a'') 1 76,
      with_score rounding_third (replicate 80 CHR ''b'') 1 76,
      with_score rounding_first [] 0 30]"
  by (simp add: scan_order_def rounding_enriched)

lemma rounding_greedy:
  "greedy_select (scan_order rounding_scenes rounding_subtitles) 16 [] 0 =
     Inr ([with_score rounding_second (replicate 80 CHR ''a'') 1 76,
           with_score rounding_third (replicate 80 CHR ''b'') 1 76,
           with_score rounding_first [] 0 30], 16)"
  unfolding rounding_order using threshold_examples
  by (simp add: greedy_select.simps(2) fadd_def fl_facts)

lemma rounding_selected:
  "select_highlights rounding_scenes rounding_subtitles 16 =
     Inr [(with_score rounding_first [] 0 30)\<lparr>selected_id := Some 1\<rparr>,
          (with_score rounding_second (replicate 80 CHR ''a'') 1 76)\<lparr>selected_id := Some 2\<rparr>,
          (with_score rounding_third (replicate 80 CHR ''b'') 1 76)\<lparr>selected_id := Some 3\<rparr>]"
  by (simp add: select_highlights_scan rounding_greedy sort_by_start_time_def
      del: not_None_eq)

lemma rounding_totals:
  "running_total
     [with_score rounding_second (replicate 80 CHR ''a'') 1 76,
      with_score rounding_third (replicate 80 CHR ''b'') 1 76,
      with_score rounding_first [] 0 30] = 16"
  "running_total
     [(with_score rounding_first [] 0 30)\<lparr>selected_id := Some 1\<rparr>,
      (with_score rounding_second (replicate 80 CHR ''a'') 1 76)\<lparr>selected_id := Some 2\<rparr>,
      (with_score rounding_third (replicate 80 CHR ''b'') 1 76)\<lparr>selected_id := Some 3\<rparr>]
     = 16 + 1 / 2 ^ 48"
  "sum_list (map duration_of
     [(with_score rounding_first [] 0 30)\<lparr>selected_id := Some 1\<rparr>,
      (with_score rounding_second (replicate 80 CHR ''a'') 1 76)\<lparr>selected_id := Some 2\<rparr>,
      (with_score rounding_third (replicate 80 CHR ''b'') 1 76)\<lparr>selected_id := Some 3\<rparr>])
     = 16 + 3 / 2 ^ 50"
  by (simp_all add: running_total_def duration_of_def fadd_def fl_facts)

section \<open>The claims about highlight selection\<close>

text \<open>
  Claim C1, as stated, fails on the sum of the durations. The loop tests the running
  total, a float sum in the order of acceptance, and each addition rounds. The three
  scenes below are as the detector guarantees them (positive durations, each equal to end
  minus start, sorted, not overlapping), and all their times are floats. For a target of
  16 the three are selected: the running total ends at 16. The durations of the selection
  sum to \<open>16 + 3 * 2\<^sup>-\<^sup>5\<^sup>0\<close>, above the target, and added as floats in the order of the
  returned list they give \<open>16 + 2\<^sup>-\<^sup>4\<^sup>8\<close>, which Python prints as
  \<^verbatim>\<open>16.000000000000004\<close>.
\<close>

theorem budget_counterexample:
  "detector_scenes rounding_scenes
   \<and> list_all (\<lambda>r. duration_of r = end_of r - start_of r \<and> is_double (start_of r)
                 \<and> is_double (end_of r) \<and> is_double (duration_of r)) rounding_scenes
   \<and> map duration_of rounding_scenes = [6 + 1 / 2 ^ 49, 5 + 1 / 2 ^ 50, 5]
   \<and> select_highlights rounding_scenes rounding_subtitles 16 =
       Inr [(with_score rounding_first [] 0 30)\<lparr>selected_id := Some 1\<rparr>,
            (with_score rounding_second (replicate 80 CHR ''a'') 1 76)\<lparr>selected_id := Some 2\<rparr>,
            (with_score rounding_third (replicate 80 CHR ''b'') 1 76)\<lparr>selected_id := Some 3\<rparr>]
   \<and> running_total
         [with_score rounding_second (replicate 80 CHR ''a'') 1 76,
          with_score rounding_third (replicate 80 CHR ''b'') 1 76,
          with_score rounding_first [] 0 30] = 16
   \<and> sum_list (map duration_of
         [(with_score rounding_first [] 0 30)\<lparr>selected_id := Some 1\<rparr>,
          (with_score rounding_second (replicate 80 CHR ''a'') 1 76)\<lparr>selected_id := Some 2\<rparr>,
          (with_score rounding_third (replicate 80 CHR ''b'') 1 76)\<lparr>selected_id := Some 3\<rparr>])
       = 16 + 3 / 2 ^ 50
   \<and> running_total
         [(with_score rounding_first [] 0 30)\<lparr>selected_id := Some 1\<rparr>,
          (with_score rounding_second (replicate 80 CHR ''a'') 1 76)\<lparr>selected_id := Some 2\<rparr>,
          (with_score rounding_third (replicate 80 CHR ''b'') 1 76)\<lparr>selected_id := Some 3\<rparr>]
       = 16 + 1 / 2 ^ 48
   \<and> \<not> (16 + 3 / 2 ^ 50 \<le> (16 :: real)) \<and> \<not> (16 + 1 / 2 ^ 48 \<le> (16 :: real))"
proof -
  have "list_all (\<lambda>r. duration_of r = end_of r - start_of r \<and> is_double (start_of r)
                 \<and> is_double (end_of r) \<and> is_double (duration_of r)) rounding_scenes"
    using rounding_doubles
    by (simp add: rounding_scenes_def start_of_def end_of_def duration_of_def)
  moreover have "map duration_of rounding_scenes = [6 + 1 / 2 ^ 49, 5 + 1 / 2 ^ 50, 5]"
    by (simp add: rounding_scenes_def duration_of_def)
  moreover have "\<not> (16 + 3 / 2 ^ 50 \<le> (16 :: real))" "\<not> (16 + 1 / 2 ^ 48 \<le> (16 :: real))"
    by simp_all
  ultimately show ?thesis
    using rounding_detector rounding_selected rounding_totals by blast
qed

text \<open>
  Claim C1, amended. Whenever \<open>select_highlights\<close> returns a selection \<open>sel\<close>, it is the list
  \<open>acc\<close> of the scenes accepted by the scan, sorted by start time and numbered, and the
  running total of \<open>acc\<close> (the float sum of the durations in the order of acceptance) was at
  most the target after every acceptance; every selected scene is an input scene with
  its own identifier, start, end and duration (nothing is truncated); and if the
  durations of the input are non-negative floats, no selected scene is longer than the
  target. When every duration is a float above the target, and when the input is empty,
  the result is the empty list, returned normally.
\<close>

theorem select_highlights_budget:
  "(select_highlights scenes subs T = Inr sel \<longrightarrow>
      (\<exists>acc. subseq acc (scan_order scenes subs)
           \<and> sel = assign_selected_ids 1 (sort_key start_of acc)
           \<and> (\<forall>n. 0 < n \<and> n \<le> length acc \<longrightarrow> running_total (take n acc) \<le> T))
      \<and> (\<forall>s\<in>set sel. \<exists>r\<in>set scenes. scene_id s = scene_id r \<and> start_time s = start_time r
             \<and> end_time s = end_time r \<and> duration s = duration r \<and> duration r \<noteq> None)
      \<and> ((\<forall>r\<in>set scenes. \<forall>d. duration r = Some d \<longrightarrow> 0 \<le> d \<and> is_double d)
            \<longrightarrow> (\<forall>s\<in>set sel. duration_of s \<le> T)))
   \<and> ((\<forall>r\<in>set scenes. \<forall>d. duration r = Some d \<longrightarrow> is_double d \<and> T < d)
         \<longrightarrow> select_highlights scenes subs T = Inr [])
   \<and> select_highlights [] subs T = Inr []"
  using select_highlights_running_total [of scenes subs T sel]
    select_highlights_from_input [of scenes subs T sel]
    select_highlights_each_fits [of scenes subs T sel]
    select_highlights_nothing_fits [of scenes T subs]
    select_highlights_empty [of subs T]
  by blast

theorem select_highlights_budget_witness:
  "select_highlights three_scenes late_subtitles 16 =
     Inr [(with_score (sample_scene 2 12 20) [] 0 30)\<lparr>selected_id := Some 1\<rparr>,
          (with_score (sample_scene 3 20 28) late_dialogue 4 94)\<lparr>selected_id := Some 2\<rparr>]
   \<and> running_total
         [with_score (sample_scene 3 20 28) late_dialogue 4 94,
          with_score (sample_scene 2 12 20) [] 0 30] \<le> 16
   \<and> list_all (\<lambda>s. duration_of s \<le> 16)
         [(with_score (sample_scene 2 12 20) [] 0 30)\<lparr>selected_id := Some 1\<rparr>,
          (with_score (sample_scene 3 20 28) late_dialogue 4 94)\<lparr>selected_id := Some 2\<rparr>]
   \<and> select_highlights three_scenes late_subtitles 5 = Inr []"
proof -
  let ?sel = "[(with_score (sample_scene 2 12 20) [] 0 30)\<lparr>selected_id := Some 1\<rparr>,
          (with_score (sample_scene 3 20 28) late_dialogue 4 94)\<lparr>selected_id := Some 2\<rparr>]"
  have nn: "\<forall>r\<in>set three_scenes. \<forall>d. duration r = Some d \<longrightarrow> 0 \<le> d \<and> is_double d"
    by (auto simp: three_scenes_def)
  have long: "\<forall>r\<in>set three_scenes. \<forall>d. duration r = Some d \<longrightarrow> is_double d \<and> 5 < d"
    by (auto simp: three_scenes_def)
  from select_highlights_budget [of three_scenes late_subtitles 16 ?sel] three_selected nn
  have "\<forall>s\<in>set ?sel. duration_of s \<le> 16"
    by blast
  then have 1: "list_all (\<lambda>s. duration_of s \<le> 16) ?sel" by (simp add: list_all_iff)
  from select_highlights_budget [of three_scenes late_subtitles 5 ?sel] long
  have 2: "select_highlights three_scenes late_subtitles 5 = Inr []"
    by blast
  have 3: "running_total
         [with_score (sample_scene 3 20 28) late_dialogue 4 94,
          with_score (sample_scene 2 12 20) [] 0 30] \<le> 16"
    by (simp add: running_total_def duration_of_def fadd_def)
  from three_selected 3 1 2 show ?thesis by blast
qed



text \<open>
  Claim C5, as stated, fails on the score of scene 1: 80 characters in 8 seconds are 10
  per second, above the 8 per second that give the full dialogue score, so the dialogue
  contribution is 40, not 16, and the total is 94, not 70. Every float operation on the
  way is exact or rounds to the value shown.
\<close>

theorem scenario_score_counterexample:
  "length scenario_dialogue = 80
   \<and> calculate_highlight_score (with_dialogue (sample_scene 1 0 8) scenario_dialogue 4) = Inr 94
   \<and> calculate_highlight_score (with_dialogue (sample_scene 1 0 8) scenario_dialogue 4) \<noteq> Inr 70
   \<and> fmul (dialogue_score 80 8) (fl 0.4) = 40
   \<and> fmul (dialogue_score 80 8) (fl 0.4) \<noteq> 16"
proof -
  have "calculate_highlight_score (with_dialogue (sample_scene 1 0 8) scenario_dialogue 4)
          = Inr (highlight_score_of 80 4 (fsub 8 0))"
    by (simp add: calculate_highlight_score_of scenario_dialogue_length del: sample_durations)
  then have "calculate_highlight_score (with_dialogue (sample_scene 1 0 8) scenario_dialogue 4)
          = Inr 94"
    by (simp only: score_of_examples)
  then show ?thesis using contribution_examples(1) by (simp add: scenario_dialogue_length)
qed

text \<open>
  Claim C5, amended. In the scenario (scene 1 from 0 to 8 with four subtitles and a
  dialogue of 80 characters, scene 2 from 8 to 20 without dialogue, target 8) the scorer
  gives scene 1 a total of 94 (dialogue 40, subtitles 24, duration 30) and scene 2 a total
  of 30 (duration alone), and the selector returns exactly scene 1, with a total duration
  of 8.
\<close>

theorem scenario_end_to_end:
  "length scenario_dialogue = 80
   \<and> enrich_scenes scenario_scenes scenario_subtitles =
       [with_score (sample_scene 1 0 8) scenario_dialogue 4 94,
        with_score (sample_scene 2 8 20) [] 0 30]
   \<and> fmul (dialogue_score 80 8) (fl 0.4) = 40 \<and> fmul (subtitle_score 4) (fl 0.3) = 24
   \<and> fmul (duration_score 8) (fl 0.3) = 30
   \<and> fmul (dialogue_score 0 12) (fl 0.4) = 0 \<and> fmul (subtitle_score 0) (fl 0.3) = 0
   \<and> fmul (duration_score 12) (fl 0.3) = 30
   \<and> select_highlights scenario_scenes scenario_subtitles 8 =
       Inr [(with_score (sample_scene 1 0 8) scenario_dialogue 4 94)\<lparr>selected_id := Some 1\<rparr>]
   \<and> sum_list (map duration_of
         [(with_score (sample_scene 1 0 8) scenario_dialogue 4 94)\<lparr>selected_id := Some 1\<rparr>]) = 8"
proof -
  have "sum_list (map duration_of
         [(with_score (sample_scene 1 0 8) scenario_dialogue 4 94)\<lparr>selected_id := Some 1\<rparr>]) = 8"
    by (simp add: duration_of_def)
  then show ?thesis
    using scenario_dialogue_length scenario_enriched scenario_selected contribution_examples
    by blast
qed

theorem scenario_end_to_end_witness:
  "select_highlights scenario_scenes scenario_subtitles 8 \<noteq> Inr []
   \<and> map highlight_score (enrich_scenes scenario_scenes scenario_subtitles) = [94, 30]"
  using scenario_end_to_end by simp

text \<open>
  Claim C9, as stated, fails: \<open>select_highlights\<close> takes the scenes, the subtitles and the
  target duration and nothing else; given a list whose first scene makes the enrichment
  raise, it returns the selection made from the remaining scene. The failure is skipped,
  and no argument makes the call abort instead.
\<close>

theorem failing_scene_skipped_counterexample:
  "enrichment_fails broken_scene []
   \<and> select_highlights [broken_scene, sample_scene 2 8 20] [] 100 =
       Inr [(with_score (sample_scene 2 8 20) [] 0 30)\<lparr>selected_id := Some 1\<rparr>]"
  using broken_selected by (simp add: enrichment_fails_keys broken_scene_def)

text \<open>
  Claim C9, amended. When enrichment or scoring of a scene raises, \<open>select_highlights\<close>
  always skips that scene and continues with the others: its result is the one it gives
  on the list without the failing scenes, whatever the subtitles and the target. There is
  no strategy parameter and no abort policy at this entry point. Enrichment or scoring
  raises exactly when the scene lacks \<open>start_time\<close>, \<open>end_time\<close> or \<open>duration\<close>.
\<close>

theorem select_highlights_skips_failures:
  "select_highlights scenes subs T =
     select_highlights (filter (\<lambda>r. \<not> enrichment_fails r subs) scenes) subs T
   \<and> (enrichment_fails r subs \<longrightarrow>
        select_highlights (pre @ r # post) subs T = select_highlights (pre @ post) subs T)
   \<and> enrichment_fails r subs =
       (start_time r = None \<or> end_time r = None \<or> duration r = None)"
  using select_highlights_skips [of scenes subs T] select_highlights_skips_one [of r subs pre post T]
    enrichment_fails_keys [of r subs]
  by blast

theorem select_highlights_skips_failures_witness:
  "enrichment_fails broken_scene []
   \<and> select_highlights [broken_scene, sample_scene 2 8 20] [] 100 =
       select_highlights [sample_scene 2 8 20] [] 100
   \<and> select_highlights [sample_scene 2 8 20] [] 100 =
       Inr [(with_score (sample_scene 2 8 20) [] 0 30)\<lparr>selected_id := Some 1\<rparr>]"
proof -
  have f: "enrichment_fails broken_scene []"
    by (simp add: enrichment_fails_keys broken_scene_def)
  from select_highlights_skips_failures [of _ "[]" _ broken_scene "[]" "[sample_scene 2 8 20]"] f
  have "select_highlights ([] @ broken_scene # [sample_scene 2 8 20]) [] 100 =
        select_highlights ([] @ [sample_scene 2 8 20]) [] 100"
    by blast
  then have "select_highlights [broken_scene, sample_scene 2 8 20] [] 100 =
        select_highlights [sample_scene 2 8 20] [] 100"
    by simp
  with f broken_selected show ?thesis by simp
qed

section \<open>Keyframe extraction\<close>

subsection \<open>The sampling loop\<close>

lemma loop_count_from_props:
  assumes "k \<le> m"
  shows "k \<le> loop_count_from d m i k \<and> loop_count_from d m i k \<le> m"
    and "\<forall>j. k \<le> j \<and> j < loop_count_from d m i k \<longrightarrow> loop_step i j < d"
    and "loop_count_from d m i k = m \<or> d \<le> loop_step i (loop_count_from d m i k)"
  using assms
proof (induction d m i k rule: loop_count_from.induct)
  case (1 d m i k)
  note eq = loop_count_from.simps [of d m i k]
  {
    case 1
    show ?case
    proof (cases "k < m \<and> loop_step i k < d")
      case True
      with "1.IH"(1) have "Suc k \<le> loop_count_from d m i (Suc k) \<and> loop_count_from d m i (Suc k) \<le> m"
        by simp
      with True eq show ?thesis by simp
    next
      case False
      with eq 1 show ?thesis by simp
    qed
  next
    case 2
    show ?case
    proof (cases "k < m \<and> loop_step i k < d")
      case True
      with "1.IH"(2) have
        "\<forall>j. Suc k \<le> j \<and> j < loop_count_from d m i (Suc k) \<longrightarrow> loop_step i j < d"
        by simp
      moreover have "loop_count_from d m i k = loop_count_from d m i (Suc k)"
        using True eq by simp
      ultimately show ?thesis using True by (metis Suc_leI le_neq_implies_less)
    next
      case False
      with eq show ?thesis by simp
    qed
  next
    case 3
    show ?case
    proof (cases "k < m \<and> loop_step i k < d")
      case True
      with "1.IH"(3) have "loop_count_from d m i (Suc k) = m
          \<or> d \<le> loop_step i (loop_count_from d m i (Suc k))"
        by simp
      with True eq show ?thesis by simp
    next
      case False
      with eq 3 show ?thesis by auto
    qed
  }
qed

lemma loop_count_props:
  "loop_count d m i \<le> m"
  "\<forall>j<loop_count d m i. loop_step i j < d"
  "loop_count d m i = m \<or> d \<le> loop_step i (loop_count d m i)"
  using loop_count_from_props [of 0 m d i] by (simp_all add: loop_count_def)

lemma sample_loop_from:
  assumes "length acc = k"
  shows "sample_loop (Some st) d m i (loop_step i k) acc =
           Inr (acc @ map (\<lambda>j. fadd st (loop_step i j)) [k..<loop_count_from d m i k])"
  using assms
proof (induction d m i k arbitrary: acc rule: loop_count_from.induct)
  case (1 d m i k)
  note eq = loop_count_from.simps [of d m i k]
  show ?case
  proof (cases "k < m \<and> loop_step i k < d")
    case True
    have l: "length (acc @ [fadd st (loop_step i k)]) = Suc k" using "1.prems" by simp
    have c: "loop_count_from d m i k = loop_count_from d m i (Suc k)"
      using True eq by simp
    have lt: "k < loop_count_from d m i (Suc k)"
      using loop_count_from_props(1) [of "Suc k" m d i] True by simp
    have "sample_loop (Some st) d m i (loop_step i k) acc =
          sample_loop (Some st) d m i (loop_step i (Suc k)) (acc @ [fadd st (loop_step i k)])"
      using True "1.prems" by (subst sample_loop.simps) simp
    also have "\<dots> = Inr ((acc @ [fadd st (loop_step i k)])
          @ map (\<lambda>j. fadd st (loop_step i j)) [Suc k..<loop_count_from d m i (Suc k)])"
      using True by (intro "1.IH" l) simp
    also have "(acc @ [fadd st (loop_step i k)])
          @ map (\<lambda>j. fadd st (loop_step i j)) [Suc k..<loop_count_from d m i (Suc k)] =
        acc @ map (\<lambda>j. fadd st (loop_step i j)) [k..<loop_count_from d m i k]"
      unfolding c using lt by (simp add: upt_conv_Cons)
    finally show ?thesis .
  next
    case False
    then have "loop_count_from d m i k = k" by (subst loop_count_from.simps) auto
    moreover have "sample_loop (Some st) d m i (loop_step i k) acc = Inr acc"
      using False "1.prems" by (subst sample_loop.simps) auto
    ultimately show ?thesis by simp
  qed
qed

lemma sample_loop_closed:
  "sample_loop (Some st) d m i 0 [] =
     Inr (map (\<lambda>j. fadd st (loop_step i j)) [0..<loop_count d m i])"
  using sample_loop_from [of "[]" 0 st d m i] by (simp add: loop_count_def)

text \<open>
  As long as the products stay below \<open>2\<^sup>5\<^sup>3\<close>, the steps of a whole-number interval are its
  multiples: no addition rounds.
\<close>

lemma loop_step_of_nat:
  assumes "j * c < 2 ^ 53"
  shows "loop_step (real c) j = real (j * c)"
  using assms
proof (induction j)
  case 0
  show ?case by simp
next
  case (Suc j)
  have "j * c \<le> Suc j * c" by simp
  from this Suc.prems have "j * c < 2 ^ 53" by (rule le_less_trans)
  with Suc.IH have "loop_step (real c) j = real (j * c)" by simp
  then have "loop_step (real c) (Suc j) = fl (real (Suc j * c))"
    by (simp add: fadd_def add.commute)
  also have "\<dots> = real (Suc j * c)" using Suc.prems by (rule fl_of_nat)
  finally show ?case .
qed

lemma mode_interval_values:
  "mode_interval ''low'' = 3" "mode_interval ''medium'' = 2" "mode_interval ''high'' = 1"
  "mode \<notin> {''low'', ''medium'', ''high''} \<longrightarrow> mode_interval mode = 2"
  by (simp_all add: mode_interval_def mode_configs_def)

lemma mode_interval_cases:
  "mode_interval mode = real 3 \<or> mode_interval mode = real 2 \<or> mode_interval mode = real 1"
  by (simp add: mode_interval_def mode_configs_def)

lemma loop_step_mode_interval:
  assumes "real j * mode_interval mode < 2 ^ 53"
  shows "loop_step (mode_interval mode) j = real j * mode_interval mode"
proof -
  from mode_interval_cases [of mode] obtain c where c: "mode_interval mode = real c"
    by blast
  from assms have "real (j * c) < 2 ^ 53" by (simp add: c)
  then have "j * c < 2 ^ 53" by (metis of_nat_less_numeral_power_cancel_iff)
  from loop_step_of_nat [OF this] show ?thesis by (simp add: c)
qed

lemma sample_times_of_closed:
  assumes "start_time scene = Some st" and "end_time scene = Some en"
  shows "sample_times_of scene d m i =
     Inr (if loop_count d m i < m then take m [st, fadd st (fdiv d 2), fsub en (fl 0.1)]
          else map (\<lambda>j. fadd st (loop_step i j)) [0..<loop_count d m i])"
  using assms by (simp add: sample_times_of_def sample_loop_closed)

subsection \<open>Reading, ranking and numbering\<close>

lemma read_candidates_times:
  "map cand_time (read_candidates cap fps ts) =
     filter (\<lambda>t. read_frame cap (py_int (fmul t fps)) \<noteq> None) ts"
  by (induction ts) (auto simp: Let_def split: option.splits)

lemma read_candidates_frames:
  "map cand_frame_number (read_candidates cap fps ts) =
     map (\<lambda>t. py_int (fmul t fps)) (filter (\<lambda>t. read_frame cap (py_int (fmul t fps)) \<noteq> None) ts)"
  by (induction ts) (auto simp: Let_def split: option.splits)

lemma length_read_candidates: "length (read_candidates cap fps ts) \<le> length ts"
  by (induction ts) (auto simp: Let_def split: option.splits)

lemma make_keyframes_fields:
  "map time (make_keyframes cap paths sid six idx sel) = map cand_time sel"
  "map quality_score (make_keyframes cap paths sid six idx sel) = map cand_quality_score sel"
  "map keyframe_index (make_keyframes cap paths sid six idx sel) = [idx..<idx + length sel]"
  "length (make_keyframes cap paths sid six idx sel) = length sel"
proof -
  show "map time (make_keyframes cap paths sid six idx sel) = map cand_time sel"
    by (induction sel arbitrary: idx) simp_all
  show "map quality_score (make_keyframes cap paths sid six idx sel) = map cand_quality_score sel"
    by (induction sel arbitrary: idx) simp_all
  show "map keyframe_index (make_keyframes cap paths sid six idx sel) = [idx..<idx + length sel]"
    by (induction sel arbitrary: idx) (simp_all add: upt_conv_Cons del: upt_Suc)
  show "length (make_keyframes cap paths sid six idx sel) = length sel"
    by (induction sel arbitrary: idx) simp_all
qed

lemma extract_from_scene_closed:
  assumes "start_frame scene = Some f0" and "end_frame scene = Some f1"
    and "duration scene = Some d"
    and "sample_times_of scene d m (mode_interval mode) = Inr ts"
  shows "extract_from_scene mode m cap scene fps paths =
     Inr (make_keyframes cap paths (extractor_scene_id scene)
            (case index scene of None \<Rightarrow> extractor_scene_id scene | Some i \<Rightarrow> Some i) 0
            (sort_key cand_time
               (take m (sort_key (\<lambda>x. - cand_quality_score x) (read_candidates cap fps ts)))))"
  using assms by (simp add: extract_from_scene_def Let_def)

lemma sorted_rev_quality:
  "sorted (rev (map cand_quality_score (sort_key (\<lambda>x. - cand_quality_score x) cs)))"
proof -
  have "sorted (map (\<lambda>x. - cand_quality_score x) (sort_key (\<lambda>x. - cand_quality_score x) cs))"
    by (rule sorted_sort_key)
  then show ?thesis by (simp add: sorted_wrt_rev sorted_wrt_map)
qed

subsection \<open>Worked examples\<close>

lemma sample_scene_frames [simp]:
  "start_frame (sample_scene i s e) = Some \<lfloor>s * 25\<rfloor>"
  "end_frame (sample_scene i s e) = Some \<lfloor>e * 25\<rfloor>"
  "index (sample_scene i s e) = Some (i - 1)"
  "extractor_scene_id (sample_scene i s e) = Some i"
  by (simp_all add: sample_scene_def extractor_scene_id_def)

lemma sample_video_fields [simp]:
  "read_frame sample_video n = Some n"
  "evaluate_frame_quality sample_video f = real_of_int (f mod 4) / 4"
  "calculate_image_hash sample_video f = (if even f then ''00ff'' else ''ff00'')"
  by (simp_all add: sample_video_def)

lemma boundary_loop:
  "sample_loop (Some 0) 4 3 2 0 [] = Inr [0, 2]"
  by (simp add: sample_loop.simps fadd_def)

lemma boundary_spec_loop:
  "spec_sample_loop 0 4 3 2 0 [] = [0, 2, 4]"
  by (simp add: spec_sample_loop.simps fadd_def)

lemma boundary_times:
  "sample_times_of (sample_scene 1 0 4) 4 3 2 = Inr [0, 2, fl 3.9]"
  by (simp add: sample_times_of_def boundary_loop fadd_def fsub_def fdiv_def fl_facts)

lemma py_int_0 [simp]: "py_int 0 = 0"
  by (simp add: py_int_def)

lemma frame_examples:
  "py_int (fmul 0 25) = 0" "py_int (fmul 2 25) = 50" "py_int (fmul (fl 3.9) 25) = 97"
  "py_int (fmul 10 25) = 250" "py_int (fmul 11 25) = 275" "py_int (fmul 12 25) = 300"
  "py_int (fmul 15 30) = 450" "py_int (fmul 16 30) = 480" "py_int (fmul (fl 16.9) 30) = 506"
  "fmul (fl 16.9) 30 < 507"
  by (simp_all add: py_int_def fmul_def fl_facts)

lemma boundary_extract:
  "extract_from_scene ''medium'' 3 sample_video (sample_scene 1 0 4) 25 None =
     Inr [\<lparr>kf_scene_id = Some 1, kf_scene_index = Some 0, keyframe_index = 0, time = 0,
           frame_number = 0, quality_score = 0, image_path = None,
           image_hash = Some ''00ff''\<rparr>,
          \<lparr>kf_scene_id = Some 1, kf_scene_index = Some 0, keyframe_index = 1, time = 2,
           frame_number = 50, quality_score = 1 / 2, image_path = None,
           image_hash = Some ''00ff''\<rparr>,
          \<lparr>kf_scene_id = Some 1, kf_scene_index = Some 0, keyframe_index = 2, time = fl 3.9,
           frame_number = 97, quality_score = 1 / 4, image_path = None,
           image_hash = Some ''ff00''\<rparr>]"
proof -
  have t: "sample_times_of (sample_scene 1 0 4) (fsub 4 0) 3 (mode_interval ''medium'') =
      Inr [0, 2, fl 3.9]"
    using boundary_times by (simp add: mode_interval_values fsub_def)
  have c: "read_candidates sample_video 25 [0, 2, fl 3.9] =
      [\<lparr>cand_time = 0, cand_frame_number = 0, cand_frame = 0, cand_quality_score = 0\<rparr>,
       \<lparr>cand_time = 2, cand_frame_number = 50, cand_frame = 50, cand_quality_score = 1 / 2\<rparr>,
       \<lparr>cand_time = fl 3.9, cand_frame_number = 97, cand_frame = 97,
        cand_quality_score = 1 / 4\<rparr>]"
    by (simp add: frame_examples Let_def)
  have o: "(0 :: real) < fl 3.9" "(2 :: real) < fl 3.9" by (simp_all add: fl_facts)
  show ?thesis
    unfolding extract_from_scene_closed [OF sample_scene_frames(1,2) sample_scene_fields(4) t] c
    using o by (simp add: numeral_2_eq_2)
qed

lemma high_extract:
  "extract_from_scene ''high'' 3 sample_video (sample_scene 1 10 20) 25 None =
     Inr [\<lparr>kf_scene_id = Some 1, kf_scene_index = Some 0, keyframe_index = 0, time = 10,
           frame_number = 250, quality_score = 1 / 2, image_path = None,
           image_hash = Some ''00ff''\<rparr>,
          \<lparr>kf_scene_id = Some 1, kf_scene_index = Some 0, keyframe_index = 1, time = 11,
           frame_number = 275, quality_score = 3 / 4, image_path = None,
           image_hash = Some ''ff00''\<rparr>,
          \<lparr>kf_scene_id = Some 1, kf_scene_index = Some 0, keyframe_index = 2, time = 12,
           frame_number = 300, quality_score = 0, image_path = None,
           image_hash = Some ''00ff''\<rparr>]"
proof -
  have l: "sample_loop (Some 10) 10 3 1 0 [] = Inr [10, 11, 12]"
    by (simp add: sample_loop.simps fadd_def)
  have t: "sample_times_of (sample_scene 1 10 20) (fsub 20 10) 3 (mode_interval ''high'') =
      Inr [10, 11, 12]"
    by (simp add: sample_times_of_def mode_interval_values l fsub_def)
  have c: "read_candidates sample_video 25 [10, 11, 12] =
      [\<lparr>cand_time = 10, cand_frame_number = 250, cand_frame = 250, cand_quality_score = 1 / 2\<rparr>,
       \<lparr>cand_time = 11, cand_frame_number = 275, cand_frame = 275, cand_quality_score = 3 / 4\<rparr>,
       \<lparr>cand_time = 12, cand_frame_number = 300, cand_frame = 300, cand_quality_score = 0\<rparr>]"
    by (simp add: frame_examples Let_def)
  show ?thesis
    unfolding extract_from_scene_closed [OF sample_scene_frames(1,2) sample_scene_fields(4) t] c
    by (simp add: numeral_2_eq_2)
qed

text \<open>
  A scene from 15 to 17 seconds in a video of 30 frames per second: the loop gives one
  sampling point, so the three fallback points are used. The last one is the float
  \<open>17 - 0.1\<close>, which is the float nearest to 16.9; its product with 30 is a float below
  507, and the frame number is 506.
\<close>

lemma short_extract:
  "extract_from_scene ''medium'' 3 sample_video (sample_scene 1 15 17) 30 None =
     Inr [\<lparr>kf_scene_id = Some 1, kf_scene_index = Some 0, keyframe_index = 0, time = 15,
           frame_number = 450, quality_score = 1 / 2, image_path = None,
           image_hash = Some ''00ff''\<rparr>,
          \<lparr>kf_scene_id = Some 1, kf_scene_index = Some 0, keyframe_index = 1, time = 16,
           frame_number = 480, quality_score = 0, image_path = None,
           image_hash = Some ''00ff''\<rparr>,
          \<lparr>kf_scene_id = Some 1, kf_scene_index = Some 0, keyframe_index = 2, time = fl 16.9,
           frame_number = 506, quality_score = 1 / 2, image_path = None,
           image_hash = Some ''00ff''\<rparr>]"
proof -
  have l: "sample_loop (Some 15) 2 3 2 0 [] = Inr [15]"
    by (simp add: sample_loop.simps fadd_def)
  have t: "sample_times_of (sample_scene 1 15 17) (fsub 17 15) 3 (mode_interval ''medium'') =
      Inr [15, 16, fl 16.9]"
    by (simp add: sample_times_of_def mode_interval_values l fsub_def fadd_def fdiv_def fl_facts)
  have c: "read_candidates sample_video 30 [15, 16, fl 16.9] =
      [\<lparr>cand_time = 15, cand_frame_number = 450, cand_frame = 450, cand_quality_score = 1 / 2\<rparr>,
       \<lparr>cand_time = 16, cand_frame_number = 480, cand_frame = 480, cand_quality_score = 0\<rparr>,
       \<lparr>cand_time = fl 16.9, cand_frame_number = 506, cand_frame = 506,
        cand_quality_score = 1 / 2\<rparr>]"
    by (simp add: frame_examples Let_def)
  have o: "(15 :: real) < fl 16.9" "(16 :: real) < fl 16.9" by (simp_all add: fl_facts)
  show ?thesis
    unfolding extract_from_scene_closed [OF sample_scene_frames(1,2) sample_scene_fields(4) t] c
    using o by (simp add: numeral_2_eq_2)
qed

section \<open>The claim about keyframe extraction\<close>

text \<open>
  Claim C7, as stated, fails at the boundary of the sampling loop. For a scene of 4
  seconds in mode \<open>medium\<close> with at most 3 frames, the loop of the code stops at the step 4,
  which does not exceed the duration: it produces 2 candidates, fewer than 3, so the
  candidates become start, middle and end minus 0.1, and the keyframes are at 0, 2 and
  3.9. A loop that runs until the step exceeds the duration produces 0, 2 and 4, which are
  3 candidates and would be kept.
\<close>

theorem sampling_boundary_counterexample:
  "mode_interval ''medium'' = 2
   \<and> sample_loop (Some 0) 4 3 2 0 [] = Inr [0, 2]
   \<and> spec_sample_loop 0 4 3 2 0 [] = [0, 2, 4]
   \<and> sample_times_of (sample_scene 1 0 4) 4 3 2 = Inr [0, 2, fl 3.9]
   \<and> extract_from_scene ''medium'' 3 sample_video (sample_scene 1 0 4) 25 None =
       Inr [\<lparr>kf_scene_id = Some 1, kf_scene_index = Some 0, keyframe_index = 0, time = 0,
             frame_number = 0, quality_score = 0, image_path = None,
             image_hash = Some ''00ff''\<rparr>,
            \<lparr>kf_scene_id = Some 1, kf_scene_index = Some 0, keyframe_index = 1, time = 2,
             frame_number = 50, quality_score = 1 / 2, image_path = None,
             image_hash = Some ''00ff''\<rparr>,
            \<lparr>kf_scene_id = Some 1, kf_scene_index = Some 0, keyframe_index = 2, time = fl 3.9,
             frame_number = 97, quality_score = 1 / 4, image_path = None,
             image_hash = Some ''ff00''\<rparr>]"
  using mode_interval_values(2) boundary_loop boundary_spec_loop boundary_times boundary_extract
  by blast

text \<open>
  Claim C7, amended. For every scene with its keys, keyframe extraction generates the
  candidate times \<open>start_time + step\<close> for the steps \<open>0, interval, 2 * interval, ...\<close>
  (each step the float sum of the one before and the interval; for the intervals of the
  modes these are the exact multiples), the interval being 3, 2 or 1 seconds for the modes
  low, medium and high and 2 seconds for any other mode, until \<open>max_frames\<close> candidates are
  produced or the step reaches the scene duration (a candidate is generated only while
  the step is strictly below the duration). If fewer than \<open>max_frames\<close> candidates were
  generated, they are replaced by start, start plus half the duration and end minus 0.1,
  cut to \<open>max_frames\<close>. The candidates whose frame can be read are sorted by descending
  quality, the first \<open>max_frames\<close> are kept and sorted by time: the result has at most
  \<open>max_frames\<close> keyframes, in ascending order of time.
\<close>

theorem keyframe_extraction:
  assumes "start_frame scene = Some f0" and "end_frame scene = Some f1"
    and "duration scene = Some d"
    and "start_time scene = Some st" and "end_time scene = Some en"
  shows "loop_count d m (mode_interval mode) \<le> m
     \<and> (\<forall>j<loop_count d m (mode_interval mode). loop_step (mode_interval mode) j < d)
     \<and> (loop_count d m (mode_interval mode) = m
          \<or> d \<le> loop_step (mode_interval mode) (loop_count d m (mode_interval mode)))
     \<and> (\<forall>j. real j * mode_interval mode < 2 ^ 53 \<longrightarrow>
            loop_step (mode_interval mode) j = real j * mode_interval mode)
     \<and> sample_loop (Some st) d m (mode_interval mode) 0 [] =
          Inr (map (\<lambda>j. fadd st (loop_step (mode_interval mode) j))
                 [0..<loop_count d m (mode_interval mode)])
     \<and> sample_times_of scene d m (mode_interval mode) =
          Inr (if loop_count d m (mode_interval mode) < m
               then take m [st, fadd st (fdiv d 2), fsub en (fl 0.1)]
               else map (\<lambda>j. fadd st (loop_step (mode_interval mode) j))
                      [0..<loop_count d m (mode_interval mode)])
     \<and> (\<exists>ts kfs. sample_times_of scene d m (mode_interval mode) = Inr ts
           \<and> extract_from_scene mode m cap scene fps paths = Inr kfs
           \<and> map cand_time (read_candidates cap fps ts) =
                filter (\<lambda>t. read_frame cap (py_int (fmul t fps)) \<noteq> None) ts
           \<and> sorted (rev (map cand_quality_score
                (sort_key (\<lambda>x. - cand_quality_score x) (read_candidates cap fps ts))))
           \<and> map time kfs =
                map cand_time (sort_key cand_time
                  (take m (sort_key (\<lambda>x. - cand_quality_score x) (read_candidates cap fps ts))))
           \<and> length kfs \<le> m \<and> sorted (map time kfs))
     \<and> mode_interval ''low'' = 3 \<and> mode_interval ''medium'' = 2 \<and> mode_interval ''high'' = 1
     \<and> (mode \<notin> {''low'', ''medium'', ''high''} \<longrightarrow> mode_interval mode = 2)"
proof -
  let ?i = "mode_interval mode"
  let ?n = "loop_count d m ?i"
  let ?ts = "if ?n < m then take m [st, fadd st (fdiv d 2), fsub en (fl 0.1)]
             else map (\<lambda>j. fadd st (loop_step ?i j)) [0..<?n]"
  let ?cs = "read_candidates cap fps ?ts"
  let ?sel = "sort_key cand_time (take m (sort_key (\<lambda>x. - cand_quality_score x) ?cs))"
  let ?kfs = "make_keyframes cap paths (extractor_scene_id scene)
            (case index scene of None \<Rightarrow> extractor_scene_id scene | Some i \<Rightarrow> Some i) 0 ?sel"
  have t: "sample_times_of scene d m ?i = Inr ?ts"
    by (rule sample_times_of_closed [OF assms(4,5)])
  have e: "extract_from_scene mode m cap scene fps paths = Inr ?kfs"
    by (rule extract_from_scene_closed [OF assms(1,2,3) t])
  have k1: "map time ?kfs = map cand_time ?sel" by (rule make_keyframes_fields(1))
  have k2: "length ?kfs \<le> m" by (simp add: make_keyframes_fields(4))
  have k3: "sorted (map time ?kfs)" unfolding k1 by (rule sorted_sort_key)
  have x: "\<exists>ts kfs. sample_times_of scene d m ?i = Inr ts
           \<and> extract_from_scene mode m cap scene fps paths = Inr kfs
           \<and> map cand_time (read_candidates cap fps ts) =
                filter (\<lambda>t. read_frame cap (py_int (fmul t fps)) \<noteq> None) ts
           \<and> sorted (rev (map cand_quality_score
                (sort_key (\<lambda>x. - cand_quality_score x) (read_candidates cap fps ts))))
           \<and> map time kfs =
                map cand_time (sort_key cand_time
                  (take m (sort_key (\<lambda>x. - cand_quality_score x) (read_candidates cap fps ts))))
           \<and> length kfs \<le> m \<and> sorted (map time kfs)"
    using t e read_candidates_times [of cap fps ?ts] sorted_rev_quality [of ?cs] k1 k2 k3
    by blast
  have s: "\<forall>j. real j * ?i < 2 ^ 53 \<longrightarrow> loop_step ?i j = real j * ?i"
    using loop_step_mode_interval [of _ mode] by blast
  from loop_count_props [of d m ?i] s sample_loop_closed [of st d m ?i] t x
    mode_interval_values(1,2,3) mode_interval_values(4) [of mode]
  show ?thesis by (intro conjI)
qed

theorem keyframe_extraction_witness:
  "start_frame (sample_scene 1 10 20) = Some 250 \<and> end_frame (sample_scene 1 10 20) = Some 500
   \<and> duration (sample_scene 1 10 20) = Some 10
   \<and> start_time (sample_scene 1 10 20) = Some 10 \<and> end_time (sample_scene 1 10 20) = Some 20
   \<and> loop_count 10 3 (mode_interval ''high'') = 3
   \<and> sample_times_of (sample_scene 1 10 20) 10 3 (mode_interval ''high'') = Inr [10, 11, 12]
   \<and> map time (projr (extract_from_scene ''high'' 3 sample_video (sample_scene 1 10 20) 25 None)) =
       [10, 11, 12]
   \<and> length (projr (extract_from_scene ''high'' 3 sample_video (sample_scene 1 10 20) 25 None)) \<le> 3
   \<and> sorted (map time
         (projr (extract_from_scene ''high'' 3 sample_video (sample_scene 1 10 20) 25 None)))
   \<and> start_frame (sample_scene 1 15 17) = Some 375 \<and> end_frame (sample_scene 1 15 17) = Some 425
   \<and> duration (sample_scene 1 15 17) = Some 2
   \<and> start_time (sample_scene 1 15 17) = Some 15 \<and> end_time (sample_scene 1 15 17) = Some 17
   \<and> loop_count 2 3 (mode_interval ''medium'') = 1
   \<and> sample_times_of (sample_scene 1 15 17) 2 3 (mode_interval ''medium'') =
       Inr [15, 16, fl 16.9]
   \<and> map frame_number
       (projr (extract_from_scene ''medium'' 3 sample_video (sample_scene 1 15 17) 30 None)) =
       [450, 480, 506]"
proof -
  have k: "start_frame (sample_scene 1 10 20) = Some 250"
    "end_frame (sample_scene 1 10 20) = Some 500"
    "duration (sample_scene 1 10 20) = Some 10"
    "start_time (sample_scene 1 10 20) = Some 10" "end_time (sample_scene 1 10 20) = Some 20"
    by (simp_all add: fsub_def)
  have k': "start_frame (sample_scene 1 15 17) = Some 375"
    "end_frame (sample_scene 1 15 17) = Some 425"
    "duration (sample_scene 1 15 17) = Some 2"
    "start_time (sample_scene 1 15 17) = Some 15" "end_time (sample_scene 1 15 17) = Some 17"
    by (simp_all add: fsub_def)
  have n: "loop_count 10 3 (mode_interval ''high'') = 3"
    by (simp add: loop_count_def loop_count_from.simps mode_interval_values fadd_def)
  have n': "loop_count 2 3 (mode_interval ''medium'') = 1"
    by (simp add: loop_count_def loop_count_from.simps mode_interval_values fadd_def)
  from keyframe_extraction [OF k, of 3 "''high''" sample_video 25 None] n
  have t: "sample_times_of (sample_scene 1 10 20) 10 3 (mode_interval ''high'') =
             Inr (map (\<lambda>j. fadd 10 (loop_step (mode_interval ''high'') j)) [0..<3])"
    and x: "\<exists>kfs. extract_from_scene ''high'' 3 sample_video (sample_scene 1 10 20) 25 None = Inr kfs
              \<and> length kfs \<le> 3 \<and> sorted (map time kfs)"
    by auto
  have "map (\<lambda>j. fadd 10 (loop_step (mode_interval ''high'') j)) [0..<3] = [10, 11, 12]"
    by (simp add: mode_interval_values upt_conv_Cons fadd_def del: upt_Suc)
  with t have t': "sample_times_of (sample_scene 1 10 20) 10 3 (mode_interval ''high'') =
             Inr [10, 11, 12]"
    by simp
  from keyframe_extraction [OF k', of 3 "''medium''" sample_video 30 None]
  have "sample_times_of (sample_scene 1 15 17) 2 3 (mode_interval ''medium'') =
          Inr (if loop_count 2 3 (mode_interval ''medium'') < 3
               then take 3 [15, fadd 15 (fdiv 2 2), fsub 17 (fl 0.1)]
               else map (\<lambda>j. fadd 15 (loop_step (mode_interval ''medium'') j))
                      [0..<loop_count 2 3 (mode_interval ''medium'')])"
    by blast
  then have t'': "sample_times_of (sample_scene 1 15 17) 2 3 (mode_interval ''medium'') =
             Inr [15, 16, fl 16.9]"
    unfolding n' by (simp add: fadd_def fdiv_def fsub_def fl_facts)
  from x have "length (projr (extract_from_scene ''high'' 3 sample_video (sample_scene 1 10 20) 25 None)) \<le> 3"
    and "sorted (map time
         (projr (extract_from_scene ''high'' 3 sample_video (sample_scene 1 10 20) 25 None)))"
    by auto
  moreover have "map time (projr (extract_from_scene ''high'' 3 sample_video (sample_scene 1 10 20) 25 None)) =
       [10, 11, 12]"
    by (simp add: high_extract)
  moreover have "map frame_number
       (projr (extract_from_scene ''medium'' 3 sample_video (sample_scene 1 15 17) 30 None)) =
       [450, 480, 506]"
    by (simp add: short_extract)
  ultimately show ?thesis using k k' n n' t' t'' by blast
qed

section \<open>Duplicate removal\<close>

lemma first_occurrence_Suc:
  "first_occurrence (x # xs) (Suc i) =
     (image_hash x \<noteq> image_hash (xs ! i) \<and> first_occurrence xs i)"
  by (auto simp: first_occurrence_def)

lemma survives_0:
  "survives seen (x # xs) 0 = (\<not> truthy (image_hash x) \<or> image_hash x \<notin> seen)"
  by (simp add: survives_def first_occurrence_def)

lemma survives_Suc_kept:
  assumes "truthy (image_hash x)"
  shows "survives seen (x # xs) (Suc i) = survives (insert (image_hash x) seen) xs i"
  using assms by (auto simp: survives_def first_occurrence_Suc)

lemma survives_Suc_same:
  assumes "\<not> truthy (image_hash x) \<or> image_hash x \<in> seen"
  shows "survives seen (x # xs) (Suc i) = survives seen xs i"
  using assms by (auto simp: survives_def first_occurrence_Suc)

lemma positions_Cons:
  "map ((!) (x # xs)) (filter P [0..<Suc (length xs)]) =
     (if P 0 then [x] else []) @ map ((!) xs) (filter (P \<circ> Suc) [0..<length xs])"
proof -
  have "[0..<Suc (length xs)] = 0 # map Suc [0..<length xs]"
    by (simp add: upt_conv_Cons map_Suc_upt del: upt_Suc)
  then show ?thesis by (simp add: filter_map o_def)
qed

text \<open>The loop keeps the positions that \<open>survives\<close> describes, in their order.\<close>

lemma remove_duplicates_loop_positions:
  "remove_duplicates_loop xs u seen =
     u @ map ((!) xs) (filter (survives seen xs) [0..<length xs])"
proof (induction xs arbitrary: u seen)
  case Nil
  show ?case by simp
next
  case (Cons x xs)
  show ?case
  proof (cases "\<not> truthy (image_hash x) \<or> image_hash x \<notin> seen")
    case keep: True
    show ?thesis
    proof (cases "truthy (image_hash x)")
      case True
      have "survives seen (x # xs) \<circ> Suc = survives (insert (image_hash x) seen) xs"
        by (rule ext) (simp add: survives_Suc_kept True)
      with keep True show ?thesis
        by (simp add: Cons.IH positions_Cons survives_0 del: upt_Suc)
    next
      case False
      have "survives seen (x # xs) \<circ> Suc = survives seen xs"
        by (rule ext) (simp add: survives_Suc_same False)
      with keep False show ?thesis
        by (simp add: Cons.IH positions_Cons survives_0 del: upt_Suc)
    qed
  next
    case drop: False
    have "survives seen (x # xs) \<circ> Suc = survives seen xs"
      by (rule ext) (use drop in \<open>simp add: survives_Suc_same\<close>)
    with drop show ?thesis
      by (simp add: Cons.IH positions_Cons survives_0 del: upt_Suc)
  qed
qed

lemma remove_duplicates_positions:
  "remove_duplicates kfs thr =
     map ((!) kfs)
       (filter (\<lambda>i. \<not> hashed (kfs ! i) \<or> first_occurrence kfs i) [0..<length kfs])"
proof -
  have "survives {} kfs = (\<lambda>i. \<not> hashed (kfs ! i) \<or> first_occurrence kfs i)"
    by (rule ext) (simp add: survives_def hashed_def)
  then show ?thesis
    by (simp add: remove_duplicates_def remove_duplicates_loop_positions del: upt_Suc)
qed

text \<open>
  Invariant of the loop: the hashes of the kept hashed keyframes are pairwise different
  and all recorded in \<open>seen\<close>.
\<close>

lemma remove_duplicates_loop_distinct:
  assumes "distinct (map image_hash (filter hashed u))"
      and "image_hash ` set (filter hashed u) \<subseteq> seen"
  shows "distinct (map image_hash (filter hashed (remove_duplicates_loop xs u seen)))"
  using assms
proof (induction xs arbitrary: u seen)
  case Nil
  then show ?case by simp
next
  case (Cons x xs)
  show ?case
  proof (cases "\<not> truthy (image_hash x) \<or> image_hash x \<notin> seen")
    case True
    show ?thesis
    proof (cases "truthy (image_hash x)")
      case t: True
      with True have notin: "image_hash x \<notin> seen" by simp
      have step: "remove_duplicates_loop (x # xs) u seen =
          remove_duplicates_loop xs (u @ [x]) (insert (image_hash x) seen)"
        using True t by simp
      have d1: "distinct (map image_hash (filter hashed (u @ [x])))"
        using Cons.prems notin by auto
      have d2: "image_hash ` set (filter hashed (u @ [x])) \<subseteq> insert (image_hash x) seen"
        using Cons.prems by auto
      show ?thesis unfolding step by (rule Cons.IH [OF d1 d2])
    next
      case f: False
      from f have nh: "\<not> hashed x" by (simp add: hashed_def)
      have step: "remove_duplicates_loop (x # xs) u seen =
          remove_duplicates_loop xs (u @ [x]) seen"
        using f by simp
      have d1: "distinct (map image_hash (filter hashed (u @ [x])))"
        using Cons.prems nh by simp
      have d2: "image_hash ` set (filter hashed (u @ [x])) \<subseteq> seen"
        using Cons.prems nh by simp
      show ?thesis unfolding step by (rule Cons.IH [OF d1 d2])
    qed
  next
    case False
    then have step: "remove_duplicates_loop (x # xs) u seen = remove_duplicates_loop xs u seen"
      by simp
    show ?thesis unfolding step by (rule Cons.IH [OF Cons.prems])
  qed
qed

lemma remove_duplicates_distinct:
  "distinct (map image_hash (filter hashed (remove_duplicates kfs thr)))"
  by (simp add: remove_duplicates_def remove_duplicates_loop_distinct)

lemma remove_duplicates_loop_unhashed:
  "filter (\<lambda>k. \<not> hashed k) (remove_duplicates_loop xs u seen) =
     filter (\<lambda>k. \<not> hashed k) u @ filter (\<lambda>k. \<not> hashed k) xs"
  by (induction xs arbitrary: u seen) (auto simp: hashed_def Let_def)

lemma remove_duplicates_loop_hashed:
  "filter hashed (remove_duplicates_loop xs u seen) =
     remove_duplicates_loop (filter hashed xs) (filter hashed u) seen"
  by (induction xs arbitrary: u seen) (auto simp: hashed_def Let_def)

lemma sample_keyframes_deduplicated:
  "remove_duplicates sample_keyframes 0.9 =
     [sample_keyframe 0 (Some ''00ff''), sample_keyframe 1 None,
      sample_keyframe 2 (Some ''00fe''), sample_keyframe 4 (Some ''''),
      sample_keyframe 5 None]"
  by (simp add: remove_duplicates_def sample_keyframes_def sample_keyframe_def truthy_def)

text \<open>
  Claim C8. For every keyframe list, \<open>remove_duplicates\<close> keeps exactly the keyframes that
  are the first occurrence of their hash (and those that carry no hash), in their order:
  every later keyframe with an identical hash is dropped. Of two keyframes with the same
  hash exactly the first survives; two keyframes with different hashes both survive,
  however close the hashes are; no two surviving hashed keyframes share a hash; and the
  result does not depend on \<open>similarity_threshold\<close>.
\<close>

theorem remove_duplicates_first_occurrences:
  "remove_duplicates kfs thr =
     map ((!) kfs)
       (filter (\<lambda>i. \<not> hashed (kfs ! i) \<or> first_occurrence kfs i) [0..<length kfs])
   \<and> (hashed a \<and> image_hash a = image_hash b \<longrightarrow> remove_duplicates [a, b] thr = [a])
   \<and> (image_hash a \<noteq> image_hash b \<longrightarrow> remove_duplicates [a, b] thr = [a, b])
   \<and> distinct (map image_hash (filter hashed (remove_duplicates kfs thr)))
   \<and> remove_duplicates kfs thr = remove_duplicates kfs thr'"
proof -
  have "remove_duplicates [a, b] thr = [a]" if "hashed a" "image_hash a = image_hash b"
    using that by (simp add: remove_duplicates_def hashed_def)
  moreover have "remove_duplicates [a, b] thr = [a, b]" if "image_hash a \<noteq> image_hash b"
    using that by (auto simp: remove_duplicates_def Let_def)
  moreover have "remove_duplicates kfs thr = remove_duplicates kfs thr'"
    by (simp add: remove_duplicates_def)
  ultimately show ?thesis
    using remove_duplicates_positions [of kfs thr] remove_duplicates_distinct [of kfs thr]
    by blast
qed

theorem remove_duplicates_first_occurrences_witness:
  "hashed (sample_keyframe 0 (Some ''00ff''))
   \<and> image_hash (sample_keyframe 0 (Some ''00ff'')) = image_hash (sample_keyframe 3 (Some ''00ff''))
   \<and> remove_duplicates [sample_keyframe 0 (Some ''00ff''), sample_keyframe 3 (Some ''00ff'')] 0.9 =
       [sample_keyframe 0 (Some ''00ff'')]
   \<and> distinct (map image_hash (filter hashed (remove_duplicates sample_keyframes 0.9)))
   \<and> remove_duplicates sample_keyframes 0.9 = remove_duplicates sample_keyframes 0
   \<and> remove_duplicates sample_keyframes 0.9 =
       [sample_keyframe 0 (Some ''00ff''), sample_keyframe 1 None,
        sample_keyframe 2 (Some ''00fe''), sample_keyframe 4 (Some ''''),
        sample_keyframe 5 None]"
proof -
  have h: "hashed (sample_keyframe 0 (Some ''00ff''))"
    by (simp add: hashed_def truthy_def sample_keyframe_def)
  have e: "image_hash (sample_keyframe 0 (Some ''00ff'')) =
           image_hash (sample_keyframe 3 (Some ''00ff''))"
    by (simp add: sample_keyframe_def)
  from remove_duplicates_first_occurrences
         [of sample_keyframes "0.9" "sample_keyframe 0 (Some ''00ff'')"
             "sample_keyframe 3 (Some ''00ff'')" 0]
       h e sample_keyframes_deduplicated
  show ?thesis by blast
qed

text \<open>
  Claim C10. For every keyframe list, \<open>remove_duplicates\<close> keeps every keyframe whose
  \<open>image_hash\<close> is missing or empty, however many there are, and such keyframes have no
  effect on the others: the hashed keyframes of the result are what duplicate removal
  gives on the hashed keyframes alone.
\<close>

theorem remove_duplicates_keeps_unhashed:
  "filter (\<lambda>k. \<not> hashed k) (remove_duplicates kfs thr) = filter (\<lambda>k. \<not> hashed k) kfs
   \<and> filter hashed (remove_duplicates kfs thr) = remove_duplicates (filter hashed kfs) thr"
proof -
  have "filter hashed (remove_duplicates kfs thr) = remove_duplicates (filter hashed kfs) thr"
    by (simp add: remove_duplicates_def remove_duplicates_loop_hashed)
  then show ?thesis
    by (simp add: remove_duplicates_def remove_duplicates_loop_unhashed)
qed

theorem remove_duplicates_keeps_unhashed_witness:
  "filter (\<lambda>k. \<not> hashed k) (remove_duplicates sample_keyframes 0.9) =
     [sample_keyframe 1 None, sample_keyframe 4 (Some ''''), sample_keyframe 5 None]
   \<and> filter hashed (remove_duplicates sample_keyframes 0.9) =
     [sample_keyframe 0 (Some ''00ff''), sample_keyframe 2 (Some ''00fe'')]"
proof -
  have u: "filter (\<lambda>k. \<not> hashed k) sample_keyframes =
      [sample_keyframe 1 None, sample_keyframe 4 (Some ''''), sample_keyframe 5 None]"
    by (simp add: sample_keyframes_def sample_keyframe_def hashed_def truthy_def)
  have h: "remove_duplicates (filter hashed sample_keyframes) 0.9 =
      [sample_keyframe 0 (Some ''00ff''), sample_keyframe 2 (Some ''00fe'')]"
    by (simp add: remove_duplicates_def sample_keyframes_def sample_keyframe_def
        hashed_def truthy_def)
  from remove_duplicates_keeps_unhashed [of sample_keyframes "0.9"] u h
  show ?thesis by simp
qed

end
